theory Spec2Isabelle
  imports Complex_Main "HOL-Library.AList"
begin

section \<open>The ledger engine of src/src/wallet.js (second module: Transaction, Block, Blockchain)\<close>

text \<open>
  Modelling conventions.
  \<^item> A JavaScript number is modelled as an exact rational (\<open>rat\<close>): rounding, \<open>NaN\<close> and
    infinities of IEEE doubles are not represented. Counters that the code only ever
    increments from 0 (\<open>nonce\<close>) and \<open>Date.now()\<close> results are natural numbers; the
    point beyond 2^53 where \<open>nonce++\<close> stops changing a double is not represented.
  \<^item> \<open>crypto.createHash('sha256')...digest('hex')\<close> is the parameter \<open>H\<close>, and
    \<open>JSON.stringify\<close> on a transaction array is the parameter \<open>J\<close>; nothing is assumed
    about either.
  \<^item> \<open>Date.now()\<close> and \<open>crypto.randomUUID()\<close> are arguments of the operation that calls them.
  \<^item> A thrown \<open>Error\<close> is a value of type \<open>error\<close>; every operation returns its outcome
    together with the state it leaves behind, so that what a failed call has already
    written stays visible.
  \<^item> Transaction arrays are JavaScript objects shared by reference between the pending
    pool and blocks. They live in a store (\<open>heap\<close>), and a block or the pool holds an
    index into it. Transaction and block objects are values: no operation of the ledger
    writes to a transaction, or to a block after it has been pushed to the chain.
  \<^item> \<open>emit\<close> appends to the trace \<open>events\<close>; the listeners registered in the repository
    (miner, console, explorer) only read the chain. \<open>console.log\<close> is left out.
\<close>

subsection \<open>Values\<close>

text \<open>An address as the code receives it: \<open>null\<close>, \<open>undefined\<close> or a string.\<close>

datatype addr = Null | Undefined | Addr string

text \<open>JavaScript truthiness of an address: \<open>!a\<close> holds for null, undefined and the empty string.\<close>

fun truthy :: "addr \<Rightarrow> bool" where
  "truthy Null = False"
| "truthy Undefined = False"
| "truthy (Addr a) = (a \<noteq> [])"

text \<open>The \<open>type\<close> string of a transaction; the constructor's comment lists further kinds,
  which no \<open>case\<close> of the state applier matches.\<close>

datatype tx_type = Transfer | MiningReward | MintToken | TransferToken | OtherType string

text \<open>The messages thrown by the ledger, in the order of their \<open>throw\<close> statements:
  addTransaction (parties, signature, balance), createToken, transferToken; and the
  \<open>TypeError\<close> of reading \<open>.hash\<close> of \<open>undefined\<close>.\<close>

datatype error =
    MissingParties
  | InvalidSignature
  | InsufficientFunds
  | TokenAlreadyExists
  | InsufficientTokenBalance
  | TypeError

subsection \<open>Transaction\<close>

text \<open>Field \<open>data\<close> holds the \<open>tokenName\<close> property of the data object (\<open>None\<close>: undefined),
  the only property the ledger reads. Fields \<open>id\<close>, \<open>from\<close>, \<open>to\<close>, \<open>type\<close> and
  \<open>timestamp\<close> carry the prefix \<open>tx_\<close>.\<close>

record transaction =
  tx_id :: string
  tx_from :: addr
  tx_to :: addr
  amount :: rat
  tx_type :: tx_type
  data :: "string option"
  tx_timestamp :: nat
  fee :: rat
  signature :: "string option"

definition calculateFee :: "rat \<Rightarrow> rat" where
  "calculateFee amt = (let baseFee = 1 / 1000; amountFee = amt * (1 / 10000) in max baseFee amountFee)"

text \<open>\<open>new Transaction(from, to, amount, type, data, customFee)\<close>; \<open>uuid\<close> and \<open>now\<close> are the
  results of \<open>crypto.randomUUID()\<close> and \<open>Date.now()\<close>.\<close>

definition Transaction_new ::
  "string \<Rightarrow> nat \<Rightarrow> addr \<Rightarrow> addr \<Rightarrow> rat \<Rightarrow> tx_type \<Rightarrow> string option \<Rightarrow> rat option \<Rightarrow> transaction" where
  "Transaction_new uuid now from_a to_a amt ty d customFee =
     \<lparr> tx_id = uuid, tx_from = from_a, tx_to = to_a, amount = amt, tx_type = ty, data = d,
       tx_timestamp = now,
       fee = (case customFee of Some f \<Rightarrow> f | None \<Rightarrow> calculateFee amt),
       signature = None \<rparr>"

text \<open>\<open>sign\<close> stores the signature produced by the RSA signer (\<open>sig\<close>).\<close>

definition sign :: "string \<Rightarrow> transaction \<Rightarrow> transaction" where
  "sign sig tx = tx\<lparr>signature := Some sig\<rparr>"

definition isValid :: "transaction \<Rightarrow> bool" where
  "isValid tx =
     (if tx_type tx = MiningReward \<or> tx_type tx = MintToken then True
      else if signature tx = None \<or> signature tx = Some [] then False
      else if \<not> truthy (tx_from tx) then False
      else (case signature tx of None \<Rightarrow> False | Some sg \<Rightarrow> 0 < length sg))"

subsection \<open>Block\<close>

text \<open>Field \<open>transactions\<close> is the reference to the transaction array in the store;
  the block's \<open>difficulty\<close> field is \<open>block_difficulty\<close>.\<close>

record block =
  timestamp :: nat
  transactions :: nat
  previousHash :: string
  nonce :: nat
  hash :: string
  miner :: addr
  reward :: rat
  block_difficulty :: nat

type_synonym store = "nat \<Rightarrow> transaction list"

text \<open>Decimal rendering of a non-negative integer, as string concatenation does it.\<close>

function dec :: "nat \<Rightarrow> string" where
  "dec n = (if n < 10 then [''0123456789'' ! n] else dec (n div 10) @ [''0123456789'' ! (n mod 10)])"
  by pat_completeness auto
termination
  by (relation "measure id") auto

declare dec.simps [simp del]

definition calculateHash ::
  "(string \<Rightarrow> string) \<Rightarrow> (transaction list \<Rightarrow> string) \<Rightarrow> store \<Rightarrow> block \<Rightarrow> string" where
  "calculateHash H J hp b =
     H (previousHash b @ dec (timestamp b) @ J (hp (transactions b)) @ dec (nonce b))"

text \<open>\<open>new Block(timestamp, transactions, previousHash)\<close>.\<close>

definition Block_new ::
  "(string \<Rightarrow> string) \<Rightarrow> (transaction list \<Rightarrow> string) \<Rightarrow> store \<Rightarrow> nat \<Rightarrow> nat \<Rightarrow> string \<Rightarrow> block" where
  "Block_new H J hp ts txs prev =
     (let b = \<lparr> timestamp = ts, transactions = txs, previousHash = prev, nonce = 0,
                 hash = [], miner = Null, reward = 0, block_difficulty = 4 \<rparr>
      in b\<lparr>hash := calculateHash H J hp b\<rparr>)"

definition calculateReward :: "store \<Rightarrow> block \<Rightarrow> rat" where
  "calculateReward hp b =
     (let baseReward = 10;
          feeReward = foldl (\<lambda>sum tx. sum + fee tx) 0 (hp (transactions b))
      in baseReward + feeReward)"

text \<open>\<open>Array(difficulty + 1).join('0')\<close>.\<close>

definition target :: "nat \<Rightarrow> string" where
  "target d = replicate d CHR ''0''"

text \<open>The proof-of-work loop of \<open>mineBlock\<close>. It need not terminate: \<open>None\<close> is the
  run that never leaves the loop.\<close>

partial_function (option) mineLoop ::
  "(string \<Rightarrow> string) \<Rightarrow> (transaction list \<Rightarrow> string) \<Rightarrow> store \<Rightarrow> nat \<Rightarrow> block \<Rightarrow> block option" where
  "mineLoop H J hp d b =
     (if take d (hash b) \<noteq> target d
      then (let b1 = b\<lparr>nonce := nonce b + 1\<rparr>
            in mineLoop H J hp d (b1\<lparr>hash := calculateHash H J hp b1\<rparr>))
      else Some b)"

definition mineBlock ::
  "(string \<Rightarrow> string) \<Rightarrow> (transaction list \<Rightarrow> string) \<Rightarrow> store \<Rightarrow> nat \<Rightarrow> addr \<Rightarrow> block \<Rightarrow> block option" where
  "mineBlock H J hp d minerAddress b =
     (case mineLoop H J hp d b of
        None \<Rightarrow> None
      | Some b1 \<Rightarrow>
          (let b2 = b1\<lparr>miner := minerAddress\<rparr>
           in Some (b2\<lparr>reward := calculateReward hp b2\<rparr>)))"

definition hasValidTransactions :: "store \<Rightarrow> block \<Rightarrow> bool" where
  "hasValidTransactions hp b = list_all isValid (hp (transactions b))"

subsection \<open>Blockchain\<close>

text \<open>A \<open>Map\<close> is an association list in insertion order; \<open>set\<close> on a present key
  replaces its value in place and on an absent key appends, which is \<open>AList.update\<close>.
  \<open>m.get(k) || 0\<close> is \<open>get0\<close>.\<close>

definition get0 :: "('k \<times> rat) list \<Rightarrow> 'k \<Rightarrow> rat" where
  "get0 m k = (case map_of m k of None \<Rightarrow> 0 | Some v \<Rightarrow> v)"

record token_info =
  name :: string
  symbol :: string
  totalSupply :: rat
  creator :: addr
  createdAt :: nat

datatype event = TransactionAdded transaction | BlockMined block

text \<open>The fields of the class, with \<open>chain\<close> named \<open>chain_of\<close>; \<open>heap\<close> is the store of
  transaction arrays, \<open>nextRef\<close> the reference the next array literal gets, and \<open>events\<close>
  the notifications emitted so far, in order. \<open>pendingTransactions\<close> is the reference to
  the pool's array.\<close>

record blockchain =
  chain_of :: "block list"
  difficulty :: nat
  pendingTransactions :: nat
  miningReward :: rat
  balances :: "(addr \<times> rat) list"
  tokens :: "(addr \<times> (string option \<times> rat) list) list"
  tokenInfo :: "(string \<times> token_info) list"
  heap :: store
  nextRef :: nat
  events :: "event list"

text \<open>The pending pool's contents.\<close>

definition pool :: "blockchain \<Rightarrow> transaction list" where
  "pool s = heap s (pendingTransactions s)"

text \<open>\<open>createGenesisBlock\<close>: the block over a fresh empty array, its hash assigned again
  from the same content.\<close>

definition createGenesisBlock ::
  "(string \<Rightarrow> string) \<Rightarrow> (transaction list \<Rightarrow> string) \<Rightarrow> nat \<Rightarrow> store \<Rightarrow> nat \<Rightarrow> block \<times> store" where
  "createGenesisBlock H J now hp r =
     (let hp1 = hp(r := []);
          genesisBlock = Block_new H J hp1 now r ''0''
      in (genesisBlock\<lparr>hash := calculateHash H J hp1 genesisBlock\<rparr>, hp1))"

text \<open>The constructor; \<open>now\<close> is the genesis block's \<open>Date.now()\<close>.\<close>

definition Blockchain_new ::
  "(string \<Rightarrow> string) \<Rightarrow> (transaction list \<Rightarrow> string) \<Rightarrow> nat \<Rightarrow> blockchain" where
  "Blockchain_new H J now =
     (case createGenesisBlock H J now (\<lambda>r. []) 0 of
        (g, hp) \<Rightarrow>
          \<lparr> chain_of = [g], difficulty = 4, pendingTransactions = 1, miningReward = 10,
            balances = [], tokens = [], tokenInfo = [], heap = hp(1 := []), nextRef = 2,
            events = [] \<rparr>)"

definition getBalance :: "blockchain \<Rightarrow> addr \<Rightarrow> rat" where
  "getBalance s address = get0 (balances s) address"

definition getTokenBalance :: "blockchain \<Rightarrow> addr \<Rightarrow> string option \<Rightarrow> rat" where
  "getTokenBalance s address tokenName =
     (let userTokens = (case map_of (tokens s) address of None \<Rightarrow> [] | Some m \<Rightarrow> m)
      in get0 userTokens tokenName)"

definition addTransaction :: "transaction \<Rightarrow> blockchain \<Rightarrow> (error + unit) \<times> blockchain" where
  "addTransaction tx s =
     (if \<not> truthy (tx_from tx) \<or> \<not> truthy (tx_to tx) then (Inl MissingParties, s)
      else if \<not> isValid tx then (Inl InvalidSignature, s)
      else if tx_type tx = Transfer \<and> getBalance s (tx_from tx) < amount tx + fee tx
        then (Inl InsufficientFunds, s)
      else (Inr (),
            s\<lparr> heap := (heap s)(pendingTransactions s := pool s @ [tx]),
               events := events s @ [TransactionAdded tx] \<rparr>))"

definition mintToken :: "string option \<Rightarrow> addr \<Rightarrow> rat \<Rightarrow> blockchain \<Rightarrow> blockchain" where
  "mintToken tokenName to_a amt s =
     (let userTokens = (case map_of (tokens s) to_a of None \<Rightarrow> [] | Some m \<Rightarrow> m);
          currentAmount = get0 userTokens tokenName;
          userTokens1 = AList.update tokenName (currentAmount + amt) userTokens
      in s\<lparr>tokens := AList.update to_a userTokens1 (tokens s)\<rparr>)"

text \<open>In \<open>transferToken\<close> the two inner maps are one object when sender and receiver are
  the same address and that address already has a map: the receiver's read then sees
  the sender's write.\<close>

definition transferToken ::
  "string option \<Rightarrow> addr \<Rightarrow> addr \<Rightarrow> rat \<Rightarrow> blockchain \<Rightarrow> (error + unit) \<times> blockchain" where
  "transferToken tokenName from_a to_a amt s =
     (let fromTokens = (case map_of (tokens s) from_a of None \<Rightarrow> [] | Some m \<Rightarrow> m);
          toTokens = (case map_of (tokens s) to_a of None \<Rightarrow> [] | Some m \<Rightarrow> m);
          fromAmount = get0 fromTokens tokenName
      in if fromAmount < amt then (Inl InsufficientTokenBalance, s)
         else
           (let fromTokens1 = AList.update tokenName (fromAmount - amt) fromTokens;
                toTokens0 = (if from_a = to_a \<and> map_of (tokens s) from_a \<noteq> None
                             then fromTokens1 else toTokens);
                toTokens1 = AList.update tokenName (get0 toTokens0 tokenName + amt) toTokens0
            in (Inr (),
                s\<lparr>tokens := AList.update to_a toTokens1 (AList.update from_a fromTokens1 (tokens s))\<rparr>)))"

text \<open>The body of the \<open>forEach\<close> callback of \<open>updateBalances\<close>: one transaction applied.\<close>

definition applyTransaction :: "transaction \<Rightarrow> blockchain \<Rightarrow> (error + unit) \<times> blockchain" where
  "applyTransaction tx s =
     (case tx_type tx of
        Transfer \<Rightarrow>
          (let fromBalance = get0 (balances s) (tx_from tx);
               toBalance = get0 (balances s) (tx_to tx);
               bs1 = AList.update (tx_from tx) (fromBalance - amount tx - fee tx) (balances s)
           in (Inr (), s\<lparr>balances := AList.update (tx_to tx) (toBalance + amount tx) bs1\<rparr>))
      | MiningReward \<Rightarrow>
          (let minerBalance = get0 (balances s) (tx_to tx)
           in (Inr (), s\<lparr>balances := AList.update (tx_to tx) (minerBalance + amount tx) (balances s)\<rparr>))
      | MintToken \<Rightarrow> (Inr (), mintToken (data tx) (tx_to tx) (amount tx) s)
      | TransferToken \<Rightarrow> transferToken (data tx) (tx_from tx) (tx_to tx) (amount tx) s
      | OtherType t \<Rightarrow> (Inr (), s))"

text \<open>\<open>forEach\<close> in array order; a throw leaves the loop with the state reached so far.\<close>

fun forEach :: "transaction list \<Rightarrow> blockchain \<Rightarrow> (error + unit) \<times> blockchain" where
  "forEach [] s = (Inr (), s)"
| "forEach (tx # txs) s =
     (case applyTransaction tx s of
        (Inl e, s1) \<Rightarrow> (Inl e, s1)
      | (Inr u, s1) \<Rightarrow> forEach txs s1)"

definition updateBalances :: "block \<Rightarrow> blockchain \<Rightarrow> (error + unit) \<times> blockchain" where
  "updateBalances b s = forEach (heap s (transactions b)) s"

text \<open>\<open>minePendingTransactions(miningRewardAddress)\<close>; \<open>uuid\<close> and \<open>now_tx\<close> belong to the
  reward transaction, \<open>now_blk\<close> is the block's timestamp. \<open>None\<close>: the mining loop
  does not terminate. The block holds the pool's own array, and only the normal
  return replaces the pool by a fresh array.\<close>

definition minePendingTransactions ::
  "(string \<Rightarrow> string) \<Rightarrow> (transaction list \<Rightarrow> string) \<Rightarrow> string \<Rightarrow> nat \<Rightarrow> nat \<Rightarrow> addr \<Rightarrow> blockchain
     \<Rightarrow> ((error + block) \<times> blockchain) option" where
  "minePendingTransactions H J uuid now_tx now_blk miningRewardAddress s =
     (let rewardTransaction =
            Transaction_new uuid now_tx Null miningRewardAddress (miningReward s) MiningReward None None;
          s1 = s\<lparr>heap := (heap s)(pendingTransactions s := pool s @ [rewardTransaction])\<rparr>
      in case chain_of s1 of
           [] \<Rightarrow> Some (Inl TypeError, s1)
         | _ # _ \<Rightarrow>
            (let b0 = Block_new H J (heap s1) now_blk (pendingTransactions s1) (hash (last (chain_of s1)))
             in case mineBlock H J (heap s1) (difficulty s1) miningRewardAddress b0 of
                  None \<Rightarrow> None
                | Some b \<Rightarrow>
                   (let s2 = s1\<lparr>chain_of := chain_of s1 @ [b]\<rparr>
                    in case updateBalances b s2 of
                         (Inl e, s3) \<Rightarrow> Some (Inl e, s3)
                       | (Inr u, s3) \<Rightarrow>
                           Some (Inr b,
                                 s3\<lparr> pendingTransactions := nextRef s3,
                                     heap := (heap s3)(nextRef s3 := []),
                                     nextRef := nextRef s3 + 1,
                                     events := events s3 @ [BlockMined b] \<rparr>))))"

definition createToken ::
  "nat \<Rightarrow> string \<Rightarrow> string \<Rightarrow> rat \<Rightarrow> addr \<Rightarrow> blockchain \<Rightarrow> (error + unit) \<times> blockchain" where
  "createToken now nm sy supply cr s =
     (if map_of (tokenInfo s) nm \<noteq> None then (Inl TokenAlreadyExists, s)
      else
        (let info = \<lparr> name = nm, symbol = sy, totalSupply = supply, creator = cr, createdAt = now \<rparr>;
             creatorTokens = (case map_of (tokens s) cr of None \<Rightarrow> [] | Some m \<Rightarrow> m);
             creatorTokens1 = AList.update (Some nm) supply creatorTokens
         in (Inr (),
             s\<lparr> tokenInfo := AList.update nm info (tokenInfo s),
                tokens := AList.update cr creatorTokens1 (tokens s) \<rparr>)))"

text \<open>The difficulty is a public field that the miner (\<open>Miner.setDifficulty\<close>) and the
  console menu assign directly.\<close>

definition setDifficulty :: "nat \<Rightarrow> blockchain \<Rightarrow> blockchain" where
  "setDifficulty d s = s\<lparr>difficulty := d\<rparr>"

text \<open>The loop of \<open>isChainValid\<close>, from index \<open>i\<close>.\<close>

function isChainValid_from ::
  "(string \<Rightarrow> string) \<Rightarrow> (transaction list \<Rightarrow> string) \<Rightarrow> store \<Rightarrow> block list \<Rightarrow> nat \<Rightarrow> bool" where
  "isChainValid_from H J hp c i =
     (if i < length c then
        (let currentBlock = c ! i; previousBlock = c ! (i - 1)
         in if \<not> hasValidTransactions hp currentBlock then False
            else if hash currentBlock \<noteq> calculateHash H J hp currentBlock then False
            else if previousHash currentBlock \<noteq> hash previousBlock then False
            else isChainValid_from H J hp c (i + 1))
      else True)"
  by pat_completeness auto
termination
  by (relation "measure (\<lambda>(H, J, hp, c, i). length c - i)") auto

declare isChainValid_from.simps [simp del]

definition isChainValid ::
  "(string \<Rightarrow> string) \<Rightarrow> (transaction list \<Rightarrow> string) \<Rightarrow> blockchain \<Rightarrow> bool" where
  "isChainValid H J s = isChainValid_from H J (heap s) (chain_of s) 1"

subsection \<open>Predicates used in the statements\<close>

text \<open>What the mining loop guarantees about the block it returns, relative to the block
  it started from.\<close>

definition mined_from :: "(string \<Rightarrow> string) \<Rightarrow> (transaction list \<Rightarrow> string) \<Rightarrow> store \<Rightarrow> nat \<Rightarrow> block \<Rightarrow> block \<Rightarrow> bool" where
  "mined_from H J hp d b b' \<longleftrightarrow>
     take d (hash b') = target d
   \<and> (hash b = calculateHash H J hp b \<longrightarrow> hash b' = calculateHash H J hp b')
   \<and> timestamp b' = timestamp b \<and> transactions b' = transactions b
   \<and> previousHash b' = previousHash b \<and> miner b' = miner b \<and> reward b' = reward b
   \<and> block_difficulty b' = block_difficulty b"

text \<open>The states reachable from a freshly constructed chain by calls of addTransaction,
  minePendingTransactions and createToken that return normally.\<close>

inductive reachable ::
  "(string \<Rightarrow> string) \<Rightarrow> (transaction list \<Rightarrow> string) \<Rightarrow> blockchain \<Rightarrow> bool"
  for H :: "string \<Rightarrow> string" and J :: "transaction list \<Rightarrow> string" where
  fresh: "reachable H J (Blockchain_new H J now)"
| add: "reachable H J s \<Longrightarrow> addTransaction tx s = (Inr (), s') \<Longrightarrow> reachable H J s'"
| mine: "reachable H J s \<Longrightarrow>
         minePendingTransactions H J uuid now_tx now_blk miningRewardAddress s = Some (Inr b, s')
         \<Longrightarrow> reachable H J s'"
| token: "reachable H J s \<Longrightarrow> createToken now nm sy supply cr s = (Inr (), s') \<Longrightarrow> reachable H J s'"

text \<open>The three checks of one iteration of \<open>isChainValid\<close>.\<close>

definition block_ok ::
  "(string \<Rightarrow> string) \<Rightarrow> (transaction list \<Rightarrow> string) \<Rightarrow> store \<Rightarrow> block \<Rightarrow> block \<Rightarrow> bool" where
  "block_ok H J hp previousBlock currentBlock \<longleftrightarrow>
     hasValidTransactions hp currentBlock
   \<and> hash currentBlock = calculateHash H J hp currentBlock
   \<and> previousHash currentBlock = hash previousBlock"

text \<open>The invariant behind chain validity: every block's array is an allocated array other
  than the pool's, the pool holds valid transactions only, and every block after the
  genesis block passes the checks of \<open>isChainValid\<close>.\<close>

definition ledger_inv ::
  "(string \<Rightarrow> string) \<Rightarrow> (transaction list \<Rightarrow> string) \<Rightarrow> blockchain \<Rightarrow> bool" where
  "ledger_inv H J s \<longleftrightarrow>
     chain_of s \<noteq> []
   \<and> pendingTransactions s < nextRef s
   \<and> (\<forall>b \<in> set (chain_of s). transactions b < nextRef s \<and> transactions b \<noteq> pendingTransactions s)
   \<and> list_all isValid (pool s)
   \<and> (\<forall>i. 0 < i \<and> i < length (chain_of s)
          \<longrightarrow> block_ok H J (heap s) (chain_of s ! (i - 1)) (chain_of s ! i))"

subsection \<open>Concrete stand-ins for runs\<close>

text \<open>A digest whose every output has four leading zeros, so that mining at the default
  difficulty stops at once, and a serializer that ignores its input. They stand in for
  SHA-256 and \<open>JSON.stringify\<close> where a statement is evaluated on a concrete input.\<close>

definition zeroDigest :: "string \<Rightarrow> string" where
  "zeroDigest x = ''0000''"

definition noJson :: "transaction list \<Rightarrow> string" where
  "noJson txs = ''[]''"

text \<open>The proof-of-work puzzle at difficulty \<open>d\<close> has a solution for every block content:
  some nonce gives a digest with \<open>d\<close> leading zeros. Mining terminates under this
  hypothesis on the digest (\<open>minePendingTransactions_terminates\<close>).\<close>

definition solvable :: "(string \<Rightarrow> string) \<Rightarrow> (transaction list \<Rightarrow> string) \<Rightarrow> nat \<Rightarrow> bool" where
  "solvable H J d \<longleftrightarrow> (\<forall>prev ts txs. \<exists>n. take d (H (prev @ dec ts @ J txs @ dec n)) = target d)"

text \<open>The reward transaction that \<open>minePendingTransactions\<close> builds first.\<close>

definition rewardTransaction :: "string \<Rightarrow> nat \<Rightarrow> addr \<Rightarrow> blockchain \<Rightarrow> transaction" where
  "rewardTransaction uuid now_tx miningRewardAddress s =
     Transaction_new uuid now_tx Null miningRewardAddress (miningReward s) MiningReward None None"

subsection \<open>Totals\<close>

text \<open>The sum of the balances over all addresses, and a token's circulating balance
  summed over all addresses.\<close>

definition totalBalance :: "blockchain \<Rightarrow> rat" where
  "totalBalance s = sum_list (map snd (balances s))"

definition tokenTotal :: "blockchain \<Rightarrow> string option \<Rightarrow> rat" where
  "tokenTotal s tokenName = sum_list (map (\<lambda>(address, userTokens). get0 userTokens tokenName) (tokens s))"

subsection \<open>Scenarios\<close>

text \<open>Further stand-ins: a digest that keeps its input behind four zeros (so that a
  changed content changes the hash), a serializer that renders the array's length, and
  a digest with only two leading zeros.\<close>

definition prefixDigest :: "string \<Rightarrow> string" where
  "prefixDigest x = ''0000'' @ x"

definition countJson :: "transaction list \<Rightarrow> string" where
  "countJson txs = dec (length txs)"

text \<open>The spec's invalid token transfer: Gold is created with 200 units for alice, who
  then submits a signed transfer_token of 500.\<close>

definition tokenTransfer500 :: transaction where
  "tokenTransfer500 =
     sign ''5a'' (Transaction_new ''t1'' 2 (Addr ''alice'') (Addr ''bob'') 500 TransferToken (Some ''Gold'') None)"

definition overdrawnTokenState :: blockchain where
  "overdrawnTokenState =
     snd (addTransaction tokenTransfer500
       (snd (createToken 1 ''Gold'' ''GLD'' 200 (Addr ''alice'') (Blockchain_new prefixDigest countJson 0))))"

text \<open>A store in which every array is empty.\<close>

definition emptyStore :: store where
  "emptyStore r = []"

definition twoZeroDigest :: "string \<Rightarrow> string" where
  "twoZeroDigest x = ''00ab''"

text \<open>A self-transfer: A mines one block (balance 10) and submits a signed transfer of 5
  to itself.\<close>

definition minedOnceState :: blockchain where
  "minedOnceState =
     snd (the (minePendingTransactions zeroDigest noJson ''u1'' 1 2 (Addr ''A'')
                 (Blockchain_new zeroDigest noJson 0)))"

definition selfTransfer5 :: transaction where
  "selfTransfer5 = sign ''5a'' (Transaction_new ''t1'' 3 (Addr ''A'') (Addr ''A'') 5 Transfer None None)"

definition selfTransferState :: blockchain where
  "selfTransferState = snd (addTransaction selfTransfer5 minedOnceState)"

section \<open>Verification\<close>

subsection \<open>Proof of work\<close>

lemma mineLoop_sound:
  assumes "mineLoop H J hp d b = Some b'"
  shows "mined_from H J hp d b b'"
proof (rule mineLoop.raw_induct[where P=mined_from, OF _ assms], goal_cases)
  case (1 f H J hp d b b')
  show ?case
  proof (cases "take d (hash b) \<noteq> target d")
    case True
    with 1(2) have "f H J hp d (b\<lparr>nonce := nonce b + 1, hash := calculateHash H J hp (b\<lparr>nonce := nonce b + 1\<rparr>)\<rparr>) = Some b'"
      by (simp add: Let_def)
    from 1(1)[OF this] show ?thesis by (auto simp add: mined_from_def calculateHash_def)
  next
    case False
    with 1(2) show ?thesis by (simp add: mined_from_def)
  qed
qed

lemma mineLoop_terminates:
  assumes "take d (calculateHash H J hp (b\<lparr>nonce := nonce b + k\<rparr>)) = target d"
    and "hash b = calculateHash H J hp b"
  shows "\<exists>b'. mineLoop H J hp d b = Some b'"
  using assms
proof (induction k arbitrary: b)
  case 0
  then have "take d (hash b) = target d" by simp
  then show ?case by (subst mineLoop.simps) simp
next
  case (Suc k)
  show ?case
  proof (cases "take d (hash b) = target d")
    case True
    then show ?thesis by (subst mineLoop.simps) simp
  next
    case False
    let ?b1 = "b\<lparr>nonce := nonce b + 1, hash := calculateHash H J hp (b\<lparr>nonce := nonce b + 1\<rparr>)\<rparr>"
    have inv: "hash ?b1 = calculateHash H J hp ?b1" by (simp add: calculateHash_def)
    have sol: "take d (calculateHash H J hp (?b1\<lparr>nonce := nonce ?b1 + k\<rparr>)) = target d"
      using Suc.prems(1) by (simp add: calculateHash_def)
    from Suc.IH[OF sol inv] obtain b' where "mineLoop H J hp d ?b1 = Some b'" by blast
    with False show ?thesis by (subst mineLoop.simps) (simp add: Let_def)
  qed
qed

lemma foldl_fee: "foldl (\<lambda>sum tx. sum + fee tx) a txs = a + sum_list (map fee txs)"
  by (induction txs arbitrary: a) (simp_all add: add.assoc)

lemma mineBlock_sound:
  assumes "mineBlock H J hp d m b = Some b'"
  shows "take d (hash b') = target d"
    and "hash b = calculateHash H J hp b \<Longrightarrow> hash b' = calculateHash H J hp b'"
    and "timestamp b' = timestamp b" and "transactions b' = transactions b"
    and "previousHash b' = previousHash b" and "miner b' = m"
    and "reward b' = 10 + sum_list (map fee (hp (transactions b)))"
    and "block_difficulty b' = block_difficulty b"
proof -
  from assms obtain b1 where l: "mineLoop H J hp d b = Some b1"
    and b': "b' = b1\<lparr>miner := m, reward := calculateReward hp (b1\<lparr>miner := m\<rparr>)\<rparr>"
    by (auto simp: mineBlock_def Let_def split: option.splits)
  from mineLoop_sound[OF l] have m: "mined_from H J hp d b b1" .
  show "take d (hash b') = target d" using m b' by (simp add: mined_from_def)
  show "hash b = calculateHash H J hp b \<Longrightarrow> hash b' = calculateHash H J hp b'"
    using m b' by (simp add: mined_from_def calculateHash_def)
  show "timestamp b' = timestamp b" using m b' by (simp add: mined_from_def)
  show "transactions b' = transactions b" using m b' by (simp add: mined_from_def)
  show "previousHash b' = previousHash b" using m b' by (simp add: mined_from_def)
  show "miner b' = m" using b' by simp
  show "reward b' = 10 + sum_list (map fee (hp (transactions b)))"
    using m b' by (simp add: mined_from_def calculateReward_def foldl_fee)
  show "block_difficulty b' = block_difficulty b" using m b' by (simp add: mined_from_def)
qed

lemma mineBlock_terminates:
  assumes "take d (calculateHash H J hp (b\<lparr>nonce := nonce b + k\<rparr>)) = target d"
    and "hash b = calculateHash H J hp b"
  shows "\<exists>b'. mineBlock H J hp d m b = Some b'"
  using mineLoop_terminates[OF assms] by (auto simp: mineBlock_def Let_def)

lemma Block_new_hash: "hash (Block_new H J hp ts txs prev) = calculateHash H J hp (Block_new H J hp ts txs prev)"
  by (simp add: Block_new_def Let_def calculateHash_def)

text \<open>The loop is the only place where mineBlock recomputes the hash: a block that
  enters the loop leaves it with the digest of its content.\<close>

lemma mineLoop_recomputed:
  assumes "mineLoop H J hp d b = Some b'" and "take d (hash b) \<noteq> target d"
  shows "hash b' = calculateHash H J hp b'"
proof -
  let ?b1 = "b\<lparr>nonce := nonce b + 1, hash := calculateHash H J hp (b\<lparr>nonce := nonce b + 1\<rparr>)\<rparr>"
  have "mineLoop H J hp d b = mineLoop H J hp d ?b1"
    using assms(2) by (subst mineLoop.simps) (simp add: Let_def)
  with assms(1) have "mineLoop H J hp d ?b1 = Some b'" by simp
  from mineLoop_sound[OF this] have "mined_from H J hp d ?b1 b'" .
  moreover have "hash ?b1 = calculateHash H J hp ?b1" by (simp add: calculateHash_def)
  ultimately show ?thesis by (simp add: mined_from_def)
qed

lemma mineBlock_recomputed:
  assumes "mineBlock H J hp d m b = Some b'" and "take d (hash b) \<noteq> target d"
  shows "hash b' = calculateHash H J hp b'"
proof -
  from assms(1) obtain b1 where l: "mineLoop H J hp d b = Some b1"
    and b': "b' = b1\<lparr>miner := m, reward := calculateReward hp (b1\<lparr>miner := m\<rparr>)\<rparr>"
    by (auto simp: mineBlock_def Let_def split: option.splits)
  from mineLoop_recomputed[OF l assms(2)] b' show ?thesis by (simp add: calculateHash_def)
qed

text \<open>
  Claim C2 as stated fails. mineBlock recomputes the hash only inside its loop, so a
  block whose hash already passes the test is returned with the hash it came with. A
  block is constructed over an empty array, one transaction is then pushed to that
  array, and mineBlock is called with difficulty 0: it terminates, and the block's hash
  is still the digest of the content at construction, not the digest of (previousHash,
  timestamp, serialized transactions, nonce).
\<close>

theorem mineBlock_stale_hash_counterexample:
  "mineBlock prefixDigest countJson (emptyStore(0 := [tokenTransfer500])) 0 (Addr ''m'')
      (Block_new prefixDigest countJson emptyStore 5 0 ''0'') \<noteq> None
 \<and> hash (the (mineBlock prefixDigest countJson (emptyStore(0 := [tokenTransfer500])) 0 (Addr ''m'')
               (Block_new prefixDigest countJson emptyStore 5 0 ''0''))) = ''00000500''
 \<and> calculateHash prefixDigest countJson (emptyStore(0 := [tokenTransfer500]))
      (the (mineBlock prefixDigest countJson (emptyStore(0 := [tokenTransfer500])) 0 (Addr ''m'')
               (Block_new prefixDigest countJson emptyStore 5 0 ''0''))) = ''00000510''
 \<and> hash (the (mineBlock prefixDigest countJson (emptyStore(0 := [tokenTransfer500])) 0 (Addr ''m'')
               (Block_new prefixDigest countJson emptyStore 5 0 ''0'')))
     \<noteq> calculateHash prefixDigest countJson (emptyStore(0 := [tokenTransfer500]))
          (the (mineBlock prefixDigest countJson (emptyStore(0 := [tokenTransfer500])) 0 (Addr ''m'')
               (Block_new prefixDigest countJson emptyStore 5 0 ''0'')))"
  by (simp add: mineBlock_def mineLoop.simps Block_new_def Let_def calculateHash_def dec.simps
      target_def calculateReward_def prefixDigest_def countJson_def emptyStore_def)

text \<open>
  Claim C2, amended. For every block and every difficulty \<open>d\<close>, when
  \<open>mineBlock(d, minerAddress)\<close> terminates, the hash of the block has at least \<open>d\<close>
  characters and its first \<open>d\<close> characters are all "0", the miner field is
  \<open>minerAddress\<close>, and the reward is 10 plus the sum of the fees of the block's
  transactions; the hash is the digest of (previousHash, timestamp, serialized
  transactions, nonce) provided that it was this digest when mineBlock was called, or
  that it did not have \<open>d\<close> leading zeros then (so that the loop ran). The hash of a
  block as the constructor returns it is this digest.
\<close>

theorem mineBlock_postcondition:
  assumes "mineBlock H J hp d minerAddress b = Some b'"
  shows "d \<le> length (hash b') \<and> (\<forall>i<d. hash b' ! i = CHR ''0'')
       \<and> miner b' = minerAddress
       \<and> reward b' = 10 + sum_list (map fee (hp (transactions b')))
       \<and> (hash b = H (previousHash b @ dec (timestamp b) @ J (hp (transactions b)) @ dec (nonce b))
            \<or> take d (hash b) \<noteq> replicate d CHR ''0''
          \<longrightarrow> hash b' = H (previousHash b' @ dec (timestamp b') @ J (hp (transactions b')) @ dec (nonce b')))
       \<and> hash (Block_new H J hp ts txs prev)
           = H (previousHash (Block_new H J hp ts txs prev) @ dec (timestamp (Block_new H J hp ts txs prev))
                @ J (hp (transactions (Block_new H J hp ts txs prev)))
                @ dec (nonce (Block_new H J hp ts txs prev)))"
proof -
  note s = mineBlock_sound[OF assms]
  have t: "take d (hash b') = replicate d CHR ''0''" using s(1) by (simp add: target_def)
  then have "length (take d (hash b')) = d" by simp
  then have le: "d \<le> length (hash b')" by simp
  have z: "\<forall>i<d. hash b' ! i = CHR ''0''"
  proof (intro allI impI)
    fix i assume "i < d"
    then have "hash b' ! i = take d (hash b') ! i" by simp
    also have "\<dots> = CHR ''0''" using \<open>i < d\<close> by (simp add: t)
    finally show "hash b' ! i = CHR ''0''" .
  qed
  have h: "hash b' = H (previousHash b' @ dec (timestamp b') @ J (hp (transactions b')) @ dec (nonce b'))"
    if "hash b = H (previousHash b @ dec (timestamp b) @ J (hp (transactions b)) @ dec (nonce b))
          \<or> take d (hash b) \<noteq> replicate d CHR ''0''"
  proof -
    from that have "hash b = calculateHash H J hp b \<or> take d (hash b) \<noteq> target d"
      by (simp add: calculateHash_def target_def)
    then have "hash b' = calculateHash H J hp b'"
      using s(2) mineBlock_recomputed[OF assms] by blast
    then show ?thesis by (simp add: calculateHash_def)
  qed
  have n: "hash (Block_new H J hp ts txs prev)
           = H (previousHash (Block_new H J hp ts txs prev) @ dec (timestamp (Block_new H J hp ts txs prev))
                @ J (hp (transactions (Block_new H J hp ts txs prev)))
                @ dec (nonce (Block_new H J hp ts txs prev)))"
    using Block_new_hash[of H J hp ts txs prev] by (simp add: calculateHash_def)
  show ?thesis using le z s(6) s(7) s(4) h n by simp
qed

text \<open>A freshly constructed block on which the loop runs three times before it finds a
  hash with two leading zeros.\<close>

theorem mineBlock_postcondition_witness:
  "mineBlock (\<lambda>s. if last s = CHR ''3'' then ''00ab'' else ''ffff'') (\<lambda>txs. ''[]'') (\<lambda>r. []) 2 (Addr ''m'')
        (Block_new (\<lambda>s. if last s = CHR ''3'' then ''00ab'' else ''ffff'') (\<lambda>txs. ''[]'') (\<lambda>r. []) 5 0 ''0'')
     = Some \<lparr> timestamp = 5, transactions = 0, previousHash = ''0'', nonce = 3, hash = ''00ab'',
              miner = Addr ''m'', reward = 10, block_difficulty = 4 \<rparr>
   \<and> hash (Block_new (\<lambda>s. if last s = CHR ''3'' then ''00ab'' else ''ffff'') (\<lambda>txs. ''[]'') (\<lambda>r. []) 5 0 ''0'')
       = ''ffff''
   \<and> take 2 ''ffff'' \<noteq> replicate 2 CHR ''0''
   \<and> (2::nat) \<le> length ''00ab'' \<and> ''00ab'' ! 0 = CHR ''0'' \<and> ''00ab'' ! 1 = CHR ''0''
   \<and> (\<lambda>s. if last s = CHR ''3'' then ''00ab'' else ''ffff'') (''0'' @ dec 5 @ ''[]'' @ dec 3) = ''00ab''"
proof -
  let ?H = "\<lambda>s. if last s = CHR ''3'' then ''00ab'' else ''ffff''"
  let ?J = "\<lambda>txs::transaction list. ''[]''"
  let ?b = "Block_new ?H ?J (\<lambda>r. []) 5 0 ''0''"
  let ?b' = "\<lparr> timestamp = 5, transactions = 0, previousHash = ''0'', nonce = 3, hash = ''00ab'',
              miner = Addr ''m'', reward = 10, block_difficulty = 4 \<rparr>"
  have h0: "hash ?b = ''ffff''"
    by (simp add: Block_new_def Let_def calculateHash_def dec.simps)
  have h1: "hash ?b = ?H (previousHash ?b @ dec (timestamp ?b) @ ?J ((\<lambda>r. []) (transactions ?b)) @ dec (nonce ?b))"
    by (simp add: Block_new_def Let_def calculateHash_def)
  have h2: "mineBlock ?H ?J (\<lambda>r. []) 2 (Addr ''m'') ?b = Some ?b'"
    by (simp add: mineBlock_def mineLoop.simps Block_new_def Let_def calculateHash_def dec.simps
        target_def calculateReward_def numeral_2_eq_2)
  note t = mineBlock_postcondition[OF h2]
  from t h1 have "hash ?b' = ?H (previousHash ?b' @ dec (timestamp ?b') @ ?J ((\<lambda>r. []) (transactions ?b')) @ dec (nonce ?b'))"
    by blast
  then have d: "?H (''0'' @ dec 5 @ ''[]'' @ dec 3) = ''00ab''" by simp
  have nz: "take 2 ''ffff'' \<noteq> replicate 2 CHR ''0''" by (simp add: numeral_2_eq_2)
  from t have "(2::nat) \<le> length (hash ?b')" by blast
  with h0 h2 d nz show ?thesis by simp
qed

subsection \<open>Chain validity\<close>

lemma isChainValid_from_iff:
  "isChainValid_from H J hp c i \<longleftrightarrow> (\<forall>j. i \<le> j \<and> j < length c \<longrightarrow> block_ok H J hp (c ! (j - 1)) (c ! j))"
proof (induction H J hp c i rule: isChainValid_from.induct)
  case (1 H J hp c i)
  show ?case
  proof (cases "i < length c")
    case False
    then have "isChainValid_from H J hp c i" by (subst isChainValid_from.simps) simp
    moreover have "\<forall>j. i \<le> j \<and> j < length c \<longrightarrow> block_ok H J hp (c ! (j - 1)) (c ! j)"
      using False by auto
    ultimately show ?thesis by blast
  next
    case True
    show ?thesis
    proof (cases "block_ok H J hp (c ! (i - 1)) (c ! i)")
      case False
      then have "\<not> isChainValid_from H J hp c i"
        using True by (subst isChainValid_from.simps) (auto simp: block_ok_def Let_def)
      moreover have "\<not> (\<forall>j. i \<le> j \<and> j < length c \<longrightarrow> block_ok H J hp (c ! (j - 1)) (c ! j))"
        using True False by blast
      ultimately show ?thesis by blast
    next
      case ok: True
      then have "isChainValid_from H J hp c i = isChainValid_from H J hp c (i + 1)"
        using True by (subst isChainValid_from.simps) (auto simp: block_ok_def Let_def)
      also have "\<dots> \<longleftrightarrow> (\<forall>j. i + 1 \<le> j \<and> j < length c \<longrightarrow> block_ok H J hp (c ! (j - 1)) (c ! j))"
        using 1[OF True refl refl] ok by (simp add: block_ok_def)
      also have "\<dots> \<longleftrightarrow> (\<forall>j. i \<le> j \<and> j < length c \<longrightarrow> block_ok H J hp (c ! (j - 1)) (c ! j))"
      proof
        assume a: "\<forall>j. i + 1 \<le> j \<and> j < length c \<longrightarrow> block_ok H J hp (c ! (j - 1)) (c ! j)"
        show "\<forall>j. i \<le> j \<and> j < length c \<longrightarrow> block_ok H J hp (c ! (j - 1)) (c ! j)"
        proof (intro allI impI)
          fix j assume j: "i \<le> j \<and> j < length c"
          show "block_ok H J hp (c ! (j - 1)) (c ! j)"
          proof (cases "j = i")
            case True then show ?thesis using ok by simp
          next
            case False then show ?thesis using a j by simp
          qed
        qed
      next
        assume "\<forall>j. i \<le> j \<and> j < length c \<longrightarrow> block_ok H J hp (c ! (j - 1)) (c ! j)"
        then show "\<forall>j. i + 1 \<le> j \<and> j < length c \<longrightarrow> block_ok H J hp (c ! (j - 1)) (c ! j)" by simp
      qed
      finally show ?thesis .
    qed
  qed
qed

lemma ledger_inv_valid: "ledger_inv H J s \<Longrightarrow> isChainValid H J s"
  by (simp add: isChainValid_def isChainValid_from_iff ledger_inv_def)

lemma applyTransaction_frame:
  assumes "applyTransaction tx s = (r, s')"
  shows "chain_of s' = chain_of s \<and> heap s' = heap s \<and> pendingTransactions s' = pendingTransactions s
       \<and> nextRef s' = nextRef s \<and> events s' = events s \<and> difficulty s' = difficulty s \<and> miningReward s' = miningReward s
       \<and> tokenInfo s' = tokenInfo s"
  using assms
  by (cases "tx_type tx")
     (auto simp: applyTransaction_def mintToken_def transferToken_def Let_def split: if_splits)

lemma forEach_frame:
  assumes "forEach txs s = (r, s')"
  shows "chain_of s' = chain_of s \<and> heap s' = heap s \<and> pendingTransactions s' = pendingTransactions s
       \<and> nextRef s' = nextRef s \<and> events s' = events s \<and> difficulty s' = difficulty s \<and> miningReward s' = miningReward s
       \<and> tokenInfo s' = tokenInfo s"
  using assms
proof (induction txs arbitrary: s)
  case Nil
  then show ?case by simp
next
  case (Cons tx txs)
  obtain r1 s1 where a: "applyTransaction tx s = (r1, s1)" by (cases "applyTransaction tx s")
  note f = applyTransaction_frame[OF a]
  show ?case
  proof (cases r1)
    case (Inl e)
    with Cons.prems a have "s' = s1" by simp
    with f show ?thesis by simp
  next
    case (Inr u)
    with Cons.prems a have "forEach txs s1 = (r, s')" by simp
    from Cons.IH[OF this] f show ?thesis by simp
  qed
qed

lemma block_ok_store:
  assumes "hp' (transactions b) = hp (transactions b)"
  shows "block_ok H J hp' p b = block_ok H J hp p b"
  using assms by (simp add: block_ok_def hasValidTransactions_def calculateHash_def)

lemma ledger_inv_fresh: "ledger_inv H J (Blockchain_new H J now)"
  by (simp add: ledger_inv_def Blockchain_new_def createGenesisBlock_def Block_new_def Let_def pool_def)

lemma ledger_inv_add:
  assumes inv: "ledger_inv H J s" and ok: "addTransaction tx s = (Inr (), s')"
  shows "ledger_inv H J s'"
proof -
  let ?p = "pendingTransactions s"
  from ok have v: "isValid tx"
    and s': "s' = s\<lparr> heap := (heap s)(?p := pool s @ [tx]), events := events s @ [TransactionAdded tx] \<rparr>"
    by (auto simp: addTransaction_def split: if_splits)
  from inv have p: "?p < nextRef s"
    and refs: "\<forall>b \<in> set (chain_of s). transactions b < nextRef s \<and> transactions b \<noteq> ?p"
    and pl: "list_all isValid (pool s)"
    and ch: "\<forall>i. 0 < i \<and> i < length (chain_of s) \<longrightarrow> block_ok H J (heap s) (chain_of s ! (i - 1)) (chain_of s ! i)"
    and ne: "chain_of s \<noteq> []"
    by (simp_all add: ledger_inv_def)
  have "\<forall>i. 0 < i \<and> i < length (chain_of s')
          \<longrightarrow> block_ok H J (heap s') (chain_of s' ! (i - 1)) (chain_of s' ! i)"
  proof (intro allI impI)
    fix i assume i: "0 < i \<and> i < length (chain_of s')"
    then have m: "chain_of s ! i \<in> set (chain_of s)" by (simp add: s')
    with refs have "transactions (chain_of s ! i) \<noteq> ?p" by blast
    then have "heap s' (transactions (chain_of s ! i)) = heap s (transactions (chain_of s ! i))"
      by (simp add: s')
    from block_ok_store[where hp'="heap s'" and hp="heap s" and b="chain_of s ! i", OF this] ch i show "block_ok H J (heap s') (chain_of s' ! (i - 1)) (chain_of s' ! i)"
      by (simp add: s')
  qed
  moreover have "list_all isValid (pool s')" using p pl v by (simp add: s' pool_def)
  ultimately show ?thesis using ne p refs by (simp add: ledger_inv_def s')
qed

lemma ledger_inv_token:
  assumes inv: "ledger_inv H J s" and ok: "createToken now nm sy supply cr s = (Inr (), s')"
  shows "ledger_inv H J s'"
proof -
  from ok have "chain_of s' = chain_of s \<and> heap s' = heap s \<and> pendingTransactions s' = pendingTransactions s
      \<and> nextRef s' = nextRef s"
    by (auto simp: createToken_def Let_def split: if_splits)
  with inv show ?thesis by (simp add: ledger_inv_def pool_def)
qed

lemma isValid_reward:
  "isValid (Transaction_new uuid now from_a to_a amt MiningReward d customFee)"
  by (simp add: isValid_def Transaction_new_def)

text \<open>The normal return of minePendingTransactions, spelled out.\<close>

lemma minePendingTransactions_Inr:
  assumes "minePendingTransactions H J uuid now_tx now_blk a s = Some (Inr b, s')"
  defines "hp1 \<equiv> (heap s)(pendingTransactions s :=
                     pool s @ [Transaction_new uuid now_tx Null a (miningReward s) MiningReward None None])"
  obtains s3 where "chain_of s \<noteq> []"
    and "mineBlock H J hp1 (difficulty s) a
           (Block_new H J hp1 now_blk (pendingTransactions s) (hash (last (chain_of s)))) = Some b"
    and "forEach (hp1 (pendingTransactions s)) (s\<lparr>heap := hp1, chain_of := chain_of s @ [b]\<rparr>) = (Inr (), s3)"
    and "s' = s3\<lparr> pendingTransactions := nextRef s3, heap := (heap s3)(nextRef s3 := []),
                    nextRef := nextRef s3 + 1, events := events s3 @ [BlockMined b] \<rparr>"
proof -
  let ?s1 = "s\<lparr>heap := hp1\<rparr>"
  let ?b0 = "Block_new H J hp1 now_blk (pendingTransactions s) (hash (last (chain_of s)))"
  from assms(1) have ne: "chain_of s \<noteq> []"
    by (auto simp: minePendingTransactions_def Let_def split: list.splits)
  then obtain x xs where c: "chain_of s = x # xs" by (cases "chain_of s") auto
  from assms(1) c have m: "mineBlock H J hp1 (difficulty s) a ?b0 \<noteq> None"
    by (auto simp: minePendingTransactions_def Let_def hp1_def split: option.splits)
  then obtain b1 where b1: "mineBlock H J hp1 (difficulty s) a ?b0 = Some b1" by blast
  let ?s2 = "?s1\<lparr>chain_of := chain_of s @ [b1]\<rparr>"
  obtain r3 s3 where u: "updateBalances b1 ?s2 = (r3, s3)" by (cases "updateBalances b1 ?s2")
  from assms(1) c b1 u have r3: "r3 = Inr ()" and bb: "b = b1"
    and s': "s' = s3\<lparr> pendingTransactions := nextRef s3, heap := (heap s3)(nextRef s3 := []),
                       nextRef := nextRef s3 + 1, events := events s3 @ [BlockMined b1] \<rparr>"
    by (auto simp: minePendingTransactions_def Let_def hp1_def split: sum.splits)
  have tb: "transactions b1 = pendingTransactions s"
    using mineBlock_sound(4)[OF b1] by (simp add: Block_new_def Let_def)
  have fe: "forEach (hp1 (pendingTransactions s)) ?s2 = (Inr (), s3)"
    using u r3 tb by (simp add: updateBalances_def)
  show thesis using that[OF ne] b1 fe s' bb by simp
qed

lemma ledger_inv_mine:
  assumes inv: "ledger_inv H J s"
    and ok: "minePendingTransactions H J uuid now_tx now_blk a s = Some (Inr b, s')"
  shows "ledger_inv H J s'"
proof -
  let ?p = "pendingTransactions s"
  let ?r = "Transaction_new uuid now_tx Null a (miningReward s) MiningReward None None"
  let ?hp1 = "(heap s)(?p := pool s @ [?r])"
  let ?c = "chain_of s"
  from inv have p: "?p < nextRef s"
    and refs: "\<forall>b \<in> set ?c. transactions b < nextRef s \<and> transactions b \<noteq> ?p"
    and pl: "list_all isValid (pool s)"
    and ch: "\<forall>i. 0 < i \<and> i < length ?c \<longrightarrow> block_ok H J (heap s) (?c ! (i - 1)) (?c ! i)"
    and ne: "?c \<noteq> []"
    by (simp_all add: ledger_inv_def)
  from minePendingTransactions_Inr[OF ok] obtain s3 where
        mb: "mineBlock H J ?hp1 (difficulty s) a (Block_new H J ?hp1 now_blk ?p (hash (last ?c))) = Some b"
    and fe: "forEach (?hp1 ?p) (s\<lparr>heap := ?hp1, chain_of := ?c @ [b]\<rparr>) = (Inr (), s3)"
    and s': "s' = s3\<lparr> pendingTransactions := nextRef s3, heap := (heap s3)(nextRef s3 := []),
                      nextRef := nextRef s3 + 1, events := events s3 @ [BlockMined b] \<rparr>"
    by blast
  note f = forEach_frame[OF fe]
  have c': "chain_of s' = ?c @ [b]" and h': "heap s' = ?hp1(nextRef s := [])"
    and p': "pendingTransactions s' = nextRef s" and n': "nextRef s' = nextRef s + 1"
    using f s' by simp_all
  note snd = mineBlock_sound[OF mb]
  have tb: "transactions b = ?p" using snd(4) by (simp add: Block_new_def Let_def)
  have hb: "hash b = calculateHash H J ?hp1 b" using snd(2)[OF Block_new_hash] .
  have pb: "previousHash b = hash (last ?c)" using snd(5) by (simp add: Block_new_def Let_def)
  have old: "heap s' t = heap s t" if "t < nextRef s" "t \<noteq> ?p" for t
    using that by (simp add: h')
  have new: "heap s' ?p = pool s @ [?r]" using p by (simp add: h')
  have okb: "block_ok H J (heap s') (last ?c) b"
    using hb pb tb new p pl isValid_reward[of uuid now_tx Null a "miningReward s" None None]
    by (simp add: block_ok_def hasValidTransactions_def calculateHash_def)
  have "\<forall>i. 0 < i \<and> i < length (chain_of s')
          \<longrightarrow> block_ok H J (heap s') (chain_of s' ! (i - 1)) (chain_of s' ! i)"
  proof (intro allI impI)
    fix i assume i: "0 < i \<and> i < length (chain_of s')"
    show "block_ok H J (heap s') (chain_of s' ! (i - 1)) (chain_of s' ! i)"
    proof (cases "i < length ?c")
      case True
      then have m: "?c ! i \<in> set ?c" by simp
      with refs have "heap s' (transactions (?c ! i)) = heap s (transactions (?c ! i))"
        using old by blast
      note st = block_ok_store[where hp'="heap s'" and hp="heap s" and b="chain_of s ! i", OF this]
      have lt: "i - 1 < length ?c" using True by simp
      have "block_ok H J (heap s) (?c ! (i - 1)) (?c ! i)" using ch i True by blast
      then have "block_ok H J (heap s') (?c ! (i - 1)) (?c ! i)" by (simp only: st)
      then show ?thesis using True lt by (simp add: c' nth_append)
    next
      case False
      with i have e: "i = length ?c" by (simp add: c')
      have "?c ! (length ?c - 1) = last ?c" using ne by (simp add: last_conv_nth)
      then show ?thesis using okb ne by (simp add: e c' nth_append)
    qed
  qed
  moreover have "list_all isValid (pool s')" by (simp add: pool_def p' h')
  moreover have "\<forall>b \<in> set (chain_of s'). transactions b < nextRef s' \<and> transactions b \<noteq> pendingTransactions s'"
    using refs tb p by (auto simp: c' n' p')
  ultimately show ?thesis by (simp add: ledger_inv_def c' n' p')
qed

lemma reachable_ledger_inv: "reachable H J s \<Longrightarrow> ledger_inv H J s"
proof (induction rule: reachable.induct)
  case (fresh now) show ?case by (rule ledger_inv_fresh)
next
  case (add s tx s') then show ?case using ledger_inv_add by blast
next
  case (mine s uuid now_tx now_blk a b s') then show ?case using ledger_inv_mine by blast
next
  case token then show ?case using ledger_inv_token by blast
qed

text \<open>
  Claim C1. Every state reachable from a freshly constructed Blockchain by calls of
  addTransaction, minePendingTransactions and createToken that return normally passes
  \<open>isChainValid\<close>; a freshly constructed chain passes it and consists of exactly one
  block, the genesis block, whose previousHash is "0" and whose transaction list is empty.
\<close>

theorem isChainValid_reachable:
  "(reachable H J s \<longrightarrow> isChainValid H J s)
 \<and> isChainValid H J (Blockchain_new H J now)
 \<and> length (chain_of (Blockchain_new H J now)) = 1
 \<and> previousHash (chain_of (Blockchain_new H J now) ! 0) = ''0''
 \<and> heap (Blockchain_new H J now) (transactions (chain_of (Blockchain_new H J now) ! 0)) = []"
proof -
  have "reachable H J s \<longrightarrow> isChainValid H J s"
    using reachable_ledger_inv ledger_inv_valid by blast
  moreover have "isChainValid H J (Blockchain_new H J now)"
    using ledger_inv_fresh ledger_inv_valid by blast
  moreover have "length (chain_of (Blockchain_new H J now)) = 1
     \<and> previousHash (chain_of (Blockchain_new H J now) ! 0) = ''0''
     \<and> heap (Blockchain_new H J now) (transactions (chain_of (Blockchain_new H J now) ! 0)) = []"
    by (simp add: Blockchain_new_def createGenesisBlock_def Block_new_def Let_def)
  ultimately show ?thesis by blast
qed

text \<open>A reachable state with two blocks: the fresh chain after one mining call.\<close>

theorem isChainValid_reachable_witness:
  "case minePendingTransactions (\<lambda>x. ''0000'') (\<lambda>txs. ''[]'') ''u1'' 1 2 (Addr ''m'')
          (Blockchain_new (\<lambda>x. ''0000'') (\<lambda>txs. ''[]'') 0) of
     Some (Inr b, s1) \<Rightarrow>
       reachable (\<lambda>x. ''0000'') (\<lambda>txs. ''[]'') s1
       \<and> isChainValid (\<lambda>x. ''0000'') (\<lambda>txs. ''[]'') s1
       \<and> length (chain_of s1) = 2
   | _ \<Rightarrow> False"
proof -
  let ?H = "\<lambda>x::string. ''0000''"
  let ?J = "\<lambda>txs::transaction list. ''[]''"
  have "\<exists>b s1. minePendingTransactions ?H ?J ''u1'' 1 2 (Addr ''m'') (Blockchain_new ?H ?J 0) = Some (Inr b, s1)
           \<and> length (chain_of s1) = 2"
    by (simp add: minePendingTransactions_def Blockchain_new_def createGenesisBlock_def Block_new_def
        Let_def calculateHash_def pool_def mineBlock_def mineLoop.simps target_def eval_nat_numeral
        updateBalances_def applyTransaction_def Transaction_new_def calculateReward_def get0_def)
  then obtain b s1 where
    eq: "minePendingTransactions ?H ?J ''u1'' 1 2 (Addr ''m'') (Blockchain_new ?H ?J 0) = Some (Inr b, s1)"
    and len: "length (chain_of s1) = 2" by blast
  have r: "reachable ?H ?J s1" by (rule reachable.mine[OF reachable.fresh eq])
  have "reachable ?H ?J s1 \<longrightarrow> isChainValid ?H ?J s1"
    using isChainValid_reachable[of ?H ?J s1 0] by blast
  with r have "isChainValid ?H ?J s1" by blast
  with r len eq show ?thesis by simp
qed

subsection \<open>Submitting transactions\<close>

text \<open>
  Claim C3 as stated fails: an unsigned transfer of 50 from an account with balance 0 is
  of kind transfer and its sender's balance is below amount + fee, yet addTransaction
  throws the signature error, not the insufficient-funds error. The checks run in the
  order parties, signature, balance.
\<close>

theorem addTransaction_unsigned_counterexample:
  "tx_type (Transaction_new ''t1'' 0 (Addr ''A'') (Addr ''B'') 50 Transfer None None) = Transfer
 \<and> getBalance (Blockchain_new zeroDigest noJson 0)
       (tx_from (Transaction_new ''t1'' 0 (Addr ''A'') (Addr ''B'') 50 Transfer None None))
     < amount (Transaction_new ''t1'' 0 (Addr ''A'') (Addr ''B'') 50 Transfer None None)
       + fee (Transaction_new ''t1'' 0 (Addr ''A'') (Addr ''B'') 50 Transfer None None)
 \<and> fst (addTransaction (Transaction_new ''t1'' 0 (Addr ''A'') (Addr ''B'') 50 Transfer None None)
           (Blockchain_new zeroDigest noJson 0)) = Inl InvalidSignature
 \<and> fst (addTransaction (Transaction_new ''t1'' 0 (Addr ''A'') (Addr ''B'') 50 Transfer None None)
           (Blockchain_new zeroDigest noJson 0)) \<noteq> Inl InsufficientFunds"
  by (simp add: addTransaction_def Transaction_new_def isValid_def getBalance_def get0_def
      Blockchain_new_def createGenesisBlock_def Let_def calculateFee_def)

text \<open>
  Claim C3, amended. For every transaction of kind transfer: when \<open>from\<close> or \<open>to\<close> is
  absent, addTransaction fails with MissingParties; when both are present and \<open>isValid\<close>
  is false, it fails with InvalidSignature; each time whatever the balance, and with the
  state unchanged. It fails with InsufficientFunds exactly when both are present,
  \<open>isValid\<close> is true and \<open>getBalance(from) < amount + fee\<close>. So, for a transfer that
  passes the first two checks, it fails with InsufficientFunds exactly when
  \<open>getBalance(from) < amount + fee\<close>; on that failure the state, pending pool included, is
  unchanged; otherwise the call returns normally, the transaction is appended to the
  pending pool, and nothing but the pool and the emitted notification changes.
\<close>

theorem addTransaction_transfer_funds:
  assumes "tx_type tx = Transfer"
  shows "(\<not> truthy (tx_from tx) \<or> \<not> truthy (tx_to tx)
            \<longrightarrow> addTransaction tx s = (Inl MissingParties, s))
       \<and> (truthy (tx_from tx) \<and> truthy (tx_to tx) \<and> \<not> isValid tx
            \<longrightarrow> addTransaction tx s = (Inl InvalidSignature, s))
       \<and> (fst (addTransaction tx s) = Inl InsufficientFunds
            \<longleftrightarrow> truthy (tx_from tx) \<and> truthy (tx_to tx) \<and> isValid tx
                \<and> getBalance s (tx_from tx) < amount tx + fee tx)
       \<and> (truthy (tx_from tx) \<and> truthy (tx_to tx) \<and> isValid tx \<longrightarrow>
            (fst (addTransaction tx s) = Inl InsufficientFunds
               \<longleftrightarrow> getBalance s (tx_from tx) < amount tx + fee tx)
          \<and> (getBalance s (tx_from tx) < amount tx + fee tx
               \<longrightarrow> addTransaction tx s = (Inl InsufficientFunds, s))
          \<and> (\<not> getBalance s (tx_from tx) < amount tx + fee tx
               \<longrightarrow> fst (addTransaction tx s) = Inr ()
                 \<and> pool (snd (addTransaction tx s)) = pool s @ [tx]
                 \<and> snd (addTransaction tx s)
                     = s\<lparr> heap := (heap s)(pendingTransactions s := pool s @ [tx]),
                          events := events s @ [TransactionAdded tx] \<rparr>))"
  using assms by (auto simp add: addTransaction_def pool_def)

text \<open>On a fresh chain, where every balance is 0: a signed transfer of 50 fails with
  InsufficientFunds, the same transfer unsigned with InvalidSignature, and one without a
  sender with MissingParties.\<close>

theorem addTransaction_transfer_funds_witness:
  "tx_type (sign ''5a'' (Transaction_new ''t1'' 0 (Addr ''A'') (Addr ''B'') 50 Transfer None None)) = Transfer
 \<and> truthy (tx_from (sign ''5a'' (Transaction_new ''t1'' 0 (Addr ''A'') (Addr ''B'') 50 Transfer None None)))
 \<and> truthy (tx_to (sign ''5a'' (Transaction_new ''t1'' 0 (Addr ''A'') (Addr ''B'') 50 Transfer None None)))
 \<and> isValid (sign ''5a'' (Transaction_new ''t1'' 0 (Addr ''A'') (Addr ''B'') 50 Transfer None None))
 \<and> getBalance (Blockchain_new zeroDigest noJson 0) (Addr ''A'') = 0
 \<and> addTransaction (sign ''5a'' (Transaction_new ''t1'' 0 (Addr ''A'') (Addr ''B'') 50 Transfer None None))
       (Blockchain_new zeroDigest noJson 0)
     = (Inl InsufficientFunds, Blockchain_new zeroDigest noJson 0)
 \<and> isValid (Transaction_new ''t1'' 0 (Addr ''A'') (Addr ''B'') 50 Transfer None None) = False
 \<and> addTransaction (Transaction_new ''t1'' 0 (Addr ''A'') (Addr ''B'') 50 Transfer None None)
       (Blockchain_new zeroDigest noJson 0)
     = (Inl InvalidSignature, Blockchain_new zeroDigest noJson 0)
 \<and> truthy (tx_from (sign ''5a'' (Transaction_new ''t1'' 0 Null (Addr ''B'') 50 Transfer None None))) = False
 \<and> addTransaction (sign ''5a'' (Transaction_new ''t1'' 0 Null (Addr ''B'') 50 Transfer None None))
       (Blockchain_new zeroDigest noJson 0)
     = (Inl MissingParties, Blockchain_new zeroDigest noJson 0)"
proof -
  let ?u = "Transaction_new ''t1'' 0 (Addr ''A'') (Addr ''B'') 50 Transfer None None"
  let ?tx = "sign ''5a'' ?u"
  let ?n = "sign ''5a'' (Transaction_new ''t1'' 0 Null (Addr ''B'') 50 Transfer None None)"
  let ?s = "Blockchain_new zeroDigest noJson 0"
  have h: "tx_type ?tx = Transfer" "truthy (tx_from ?tx)" "truthy (tx_to ?tx)" "isValid ?tx"
    by (simp_all add: sign_def Transaction_new_def isValid_def)
  have b: "getBalance ?s (Addr ''A'') = 0"
    by (simp add: getBalance_def get0_def Blockchain_new_def createGenesisBlock_def Let_def)
  have lt: "getBalance ?s (tx_from ?tx) < amount ?tx + fee ?tx"
    by (simp add: getBalance_def get0_def Blockchain_new_def createGenesisBlock_def Let_def
        sign_def Transaction_new_def calculateFee_def)
  from addTransaction_transfer_funds[OF h(1), of ?s] h(2,3,4) lt
  have r1: "addTransaction ?tx ?s = (Inl InsufficientFunds, ?s)" by blast
  have hu: "tx_type ?u = Transfer" "truthy (tx_from ?u)" "truthy (tx_to ?u)" "\<not> isValid ?u"
    by (simp_all add: Transaction_new_def isValid_def)
  from addTransaction_transfer_funds[OF hu(1), of ?s] hu(2,3,4)
  have r2: "addTransaction ?u ?s = (Inl InvalidSignature, ?s)" by blast
  have hn: "tx_type ?n = Transfer" "\<not> truthy (tx_from ?n)"
    by (simp_all add: sign_def Transaction_new_def)
  from addTransaction_transfer_funds[OF hn(1), of ?s] hn(2)
  have r3: "addTransaction ?n ?s = (Inl MissingParties, ?s)" by blast
  from h b r1 hu r2 hn r3 show ?thesis by simp
qed

text \<open>
  Claim C4 says that a mining_reward or mint_token transaction whose \<open>from\<close> is absent
  and whose \<open>to\<close> is present is not rejected for missing parties. The code rejects it:
  the parties check of addTransaction comes first and has no exception for the
  system-issued kinds (only \<open>isValid\<close> has one), so every such transaction built with
  \<open>from = null\<close>, as the console and the demo build their mint_token transactions, fails
  with the missing-parties error and leaves the state unchanged.
\<close>

theorem addTransaction_system_issued_rejected:
  "addTransaction (Transaction_new uuid now Null to_a amt MintToken d customFee) s = (Inl MissingParties, s)
 \<and> addTransaction (Transaction_new uuid now Null to_a amt MiningReward d customFee) s = (Inl MissingParties, s)"
  by (simp add: addTransaction_def Transaction_new_def)

text \<open>The mint_token transaction of the demo: \<open>to\<close> present, valid by \<open>isValid\<close>, rejected.\<close>

theorem addTransaction_system_issued_rejected_witness:
  "truthy (Addr ''bob'')
 \<and> isValid (Transaction_new ''t1'' 7 Null (Addr ''bob'') 100 MintToken (Some ''DemoToken'') None)
 \<and> addTransaction (Transaction_new ''t1'' 7 Null (Addr ''bob'') 100 MintToken (Some ''DemoToken'') None)
       (Blockchain_new zeroDigest noJson 0)
     = (Inl MissingParties, Blockchain_new zeroDigest noJson 0)"
  using addTransaction_system_issued_rejected[of "''t1''" 7 "Addr ''bob''" 100 "Some ''DemoToken''" None
      "Blockchain_new zeroDigest noJson 0"]
  by (simp add: isValid_def Transaction_new_def)

subsection \<open>Mining a block from the pending pool\<close>

lemma applyTransaction_store:
  "applyTransaction tx (s\<lparr>heap := h, chain_of := c\<rparr>)
     = (case applyTransaction tx s of (r, s') \<Rightarrow> (r, s'\<lparr>heap := h, chain_of := c\<rparr>))"
  by (cases "tx_type tx")
     (simp_all add: applyTransaction_def mintToken_def transferToken_def Let_def)

lemma forEach_store:
  "forEach txs (s\<lparr>heap := h, chain_of := c\<rparr>)
     = (case forEach txs s of (r, s') \<Rightarrow> (r, s'\<lparr>heap := h, chain_of := c\<rparr>))"
proof (induction txs arbitrary: s)
  case Nil
  show ?case by simp
next
  case (Cons tx txs)
  obtain r1 s1 where a: "applyTransaction tx s = (r1, s1)" by (cases "applyTransaction tx s")
  show ?case
  proof (cases r1)
    case (Inl e)
    with a show ?thesis by (simp add: applyTransaction_store)
  next
    case (Inr u)
    with a Cons.IH[of s1] show ?thesis by (simp add: applyTransaction_store)
  qed
qed

text \<open>minePendingTransactions in terms of the proof-of-work search and of the state
  applier run on the state before the call.\<close>

lemma minePendingTransactions_eq:
  fixes s :: blockchain and uuid :: string and now_tx :: nat and a :: addr
  assumes ne: "chain_of s \<noteq> []"
  defines "r \<equiv> rewardTransaction uuid now_tx a s"
  defines "hp1 \<equiv> (heap s)(pendingTransactions s := pool s @ [r])"
  shows "minePendingTransactions H J uuid now_tx now_blk a s =
     (case mineBlock H J hp1 (difficulty s) a
             (Block_new H J hp1 now_blk (pendingTransactions s) (hash (last (chain_of s)))) of
        None \<Rightarrow> None
      | Some b \<Rightarrow>
         (case forEach (pool s @ [r]) s of
            (Inl e, sf) \<Rightarrow> Some (Inl e, sf\<lparr>heap := hp1, chain_of := chain_of s @ [b]\<rparr>)
          | (Inr u, sf) \<Rightarrow>
              Some (Inr b, sf\<lparr> heap := hp1(nextRef s := []), chain_of := chain_of s @ [b],
                                pendingTransactions := nextRef s, nextRef := nextRef s + 1,
                                events := events s @ [BlockMined b] \<rparr>)))"
proof -
  let ?b0 = "Block_new H J hp1 now_blk (pendingTransactions s) (hash (last (chain_of s)))"
  obtain x xs where c: "chain_of s = x # xs" using ne by (cases "chain_of s") auto
  show ?thesis
  proof (cases "mineBlock H J hp1 (difficulty s) a ?b0")
    case None
    then show ?thesis
      using c by (simp add: minePendingTransactions_def Let_def r_def hp1_def rewardTransaction_def)
  next
    case (Some b)
    have tb: "transactions b = pendingTransactions s"
      using mineBlock_sound(4)[OF Some] by (simp add: Block_new_def Let_def)
    obtain rf sf where fe: "forEach (pool s @ [r]) s = (rf, sf)" by (cases "forEach (pool s @ [r]) s")
    note fr = forEach_frame[OF fe]
    have u: "updateBalances b (s\<lparr>heap := hp1, chain_of := chain_of s @ [b]\<rparr>)
               = (rf, sf\<lparr>heap := hp1, chain_of := chain_of s @ [b]\<rparr>)"
      using fe tb by (simp add: updateBalances_def forEach_store hp1_def)
    show ?thesis
    proof (cases rf)
      case (Inl e)
      with Some u fe c show ?thesis
        by (simp add: minePendingTransactions_def Let_def r_def[symmetric] rewardTransaction_def[symmetric] hp1_def[symmetric])
    next
      case (Inr v)
      with Some u fe c fr show ?thesis
        by (simp add: minePendingTransactions_def Let_def r_def[symmetric] rewardTransaction_def[symmetric] hp1_def[symmetric])
    qed
  qed
qed

lemma minePendingTransactions_terminates:
  assumes "solvable H J (difficulty s)"
  shows "minePendingTransactions H J uuid now_tx now_blk a s \<noteq> None"
proof (cases "chain_of s")
  case Nil
  then show ?thesis by (simp add: minePendingTransactions_def Let_def)
next
  case (Cons x xs)
  let ?hp1 = "(heap s)(pendingTransactions s := pool s @ [rewardTransaction uuid now_tx a s])"
  let ?b0 = "Block_new H J ?hp1 now_blk (pendingTransactions s) (hash (last (chain_of s)))"
  from assms obtain n where
    n: "take (difficulty s) (H (hash (last (chain_of s)) @ dec now_blk @ J (?hp1 (pendingTransactions s)) @ dec n))
          = target (difficulty s)"
    unfolding solvable_def by blast
  have "take (difficulty s) (calculateHash H J ?hp1 (?b0\<lparr>nonce := nonce ?b0 + n\<rparr>)) = target (difficulty s)"
    using n by (simp add: calculateHash_def Block_new_def Let_def)
  from mineBlock_terminates[OF this Block_new_hash]
  obtain b where "mineBlock H J ?hp1 (difficulty s) a ?b0 = Some b" by blast
  then show ?thesis
    using Cons by (simp add: minePendingTransactions_eq split: prod.splits sum.splits)
qed

lemma addTransaction_frame:
  assumes "addTransaction tx s = (r, s')"
  shows "chain_of s' = chain_of s \<and> difficulty s' = difficulty s \<and> miningReward s' = miningReward s
       \<and> balances s' = balances s \<and> tokens s' = tokens s \<and> tokenInfo s' = tokenInfo s
       \<and> pendingTransactions s' = pendingTransactions s \<and> nextRef s' = nextRef s"
  using assms by (auto simp: addTransaction_def split: if_splits)

lemma createToken_frame:
  assumes "createToken now nm sy amt cr s = (r, s')"
  shows "chain_of s' = chain_of s \<and> difficulty s' = difficulty s \<and> miningReward s' = miningReward s
       \<and> balances s' = balances s \<and> heap s' = heap s \<and> events s' = events s
       \<and> pendingTransactions s' = pendingTransactions s \<and> nextRef s' = nextRef s"
  using assms by (auto simp: createToken_def Let_def split: if_splits)

lemma minePendingTransactions_frame:
  assumes "minePendingTransactions H J uuid now_tx now_blk a s = Some (r, s')"
  shows "difficulty s' = difficulty s \<and> miningReward s' = miningReward s \<and> tokenInfo s' = tokenInfo s"
proof (cases "chain_of s")
  case Nil
  with assms show ?thesis by (auto simp: minePendingTransactions_def Let_def)
next
  case (Cons x xs)
  then have ne: "chain_of s \<noteq> []" by simp
  obtain rf sf where fe: "forEach (pool s @ [rewardTransaction uuid now_tx a s]) s = (rf, sf)"
    by (cases "forEach (pool s @ [rewardTransaction uuid now_tx a s]) s")
  note fr = forEach_frame[OF fe]
  from assms fe fr show ?thesis
    by (auto simp: minePendingTransactions_eq[OF ne] split: option.splits sum.splits)
qed

lemma reachable_constants: "reachable H J s \<Longrightarrow> miningReward s = 10 \<and> difficulty s = 4"
proof (induction rule: reachable.induct)
  case (fresh now)
  show ?case by (simp add: Blockchain_new_def createGenesisBlock_def Let_def)
next
  case (add s tx s')
  then show ?case using addTransaction_frame by metis
next
  case (mine s uuid now_tx now_blk a b s')
  then show ?case using minePendingTransactions_frame by metis
next
  case token
  then show ?case using createToken_frame by metis
qed

lemma fee_rewardTransaction:
  "fee (rewardTransaction uuid now_tx a s) = max (1 / 1000) (miningReward s * (1 / 10000))"
  by (simp add: rewardTransaction_def Transaction_new_def calculateFee_def Let_def)

text \<open>
  Claim C10. The reward transaction is built without a fee override, so its fee is
  \<open>max(0.001, amount * 0.0001)\<close>, which for the reward amount 10 is 0.001 and not zero.
  In every reachable state with an empty pending pool, a mining call that returns
  returns normally with a block whose only transaction is the reward transaction and
  whose reward is 10 + fee(rewardTx) = 10.001, above the base reward 10; and the call
  does return when the proof-of-work puzzle at difficulty 4 is solvable.
\<close>

theorem empty_pool_block_reward:
  assumes "reachable H J s" and "pool s = []"
  shows "fee (rewardTransaction uuid now_tx a s) = max (1 / 1000) (10 * (1 / 10000))
       \<and> fee (rewardTransaction uuid now_tx a s) = 1 / 1000
       \<and> (solvable H J 4 \<longrightarrow> minePendingTransactions H J uuid now_tx now_blk a s \<noteq> None)
       \<and> (\<forall>r s'. minePendingTransactions H J uuid now_tx now_blk a s = Some (r, s') \<longrightarrow>
             (\<exists>b. r = Inr b
                \<and> heap s' (transactions b) = [rewardTransaction uuid now_tx a s]
                \<and> reward b = 10 + fee (rewardTransaction uuid now_tx a s)
                \<and> reward b = 10001 / 1000
                \<and> 10 < reward b))"
proof -
  let ?r = "rewardTransaction uuid now_tx a s"
  let ?p = "pendingTransactions s"
  let ?hp1 = "(heap s)(?p := pool s @ [?r])"
  let ?b0 = "Block_new H J ?hp1 now_blk ?p (hash (last (chain_of s)))"
  from reachable_constants[OF assms(1)] have mr: "miningReward s = 10" and d: "difficulty s = 4"
    by simp_all
  from reachable_ledger_inv[OF assms(1)] have ne: "chain_of s \<noteq> []" and p: "?p < nextRef s"
    by (simp_all add: ledger_inv_def)
  have f: "fee ?r = 1 / 1000" using mr by (simp add: fee_rewardTransaction)
  have f': "fee ?r = max (1 / 1000) (10 * (1 / 10000))" using mr by (simp add: fee_rewardTransaction)
  have t: "solvable H J 4 \<longrightarrow> minePendingTransactions H J uuid now_tx now_blk a s \<noteq> None"
    using minePendingTransactions_terminates[of H J s] d by simp
  have "\<exists>b. r = Inr b \<and> heap s' (transactions b) = [?r] \<and> reward b = 10 + fee ?r
            \<and> reward b = 10001 / 1000 \<and> 10 < reward b"
    if m: "minePendingTransactions H J uuid now_tx now_blk a s = Some (r, s')" for r s'
  proof -
    from m obtain b where mb: "mineBlock H J ?hp1 (difficulty s) a ?b0 = Some b"
      by (auto simp: minePendingTransactions_eq[OF ne] split: option.splits)
    have ty: "tx_type ?r = MiningReward" by (simp add: rewardTransaction_def Transaction_new_def)
    have fe: "forEach (pool s @ [?r]) s
                = (Inr (), s\<lparr>balances := AList.update (tx_to ?r) (get0 (balances s) (tx_to ?r) + amount ?r) (balances s)\<rparr>)"
      using assms(2) ty by (simp add: applyTransaction_def Let_def)
    from m mb fe have r: "r = Inr b" and h: "heap s' = ?hp1(nextRef s := [])"
      by (auto simp: minePendingTransactions_eq[OF ne])
    have tb: "transactions b = ?p" using mineBlock_sound(4)[OF mb] by (simp add: Block_new_def Let_def)
    have txs: "heap s' (transactions b) = [?r]" using p assms(2) by (simp add: h tb)
    have "reward b = 10 + sum_list (map fee (?hp1 (transactions ?b0)))"
      using mineBlock_sound(7)[OF mb] .
    then have rw: "reward b = 10 + fee ?r" using assms(2) by (simp add: Block_new_def Let_def)
    show ?thesis using r txs rw f by simp
  qed
  then show ?thesis using f f' t by blast
qed

text \<open>Mining on the fresh chain.\<close>

theorem empty_pool_block_reward_witness:
  "reachable zeroDigest noJson (Blockchain_new zeroDigest noJson 0)
 \<and> pool (Blockchain_new zeroDigest noJson 0) = []
 \<and> solvable zeroDigest noJson 4
 \<and> (case minePendingTransactions zeroDigest noJson ''u1'' 1 2 (Addr ''m'') (Blockchain_new zeroDigest noJson 0) of
       Some (Inr b, s') \<Rightarrow> reward b = 10001 / 1000 \<and> length (heap s' (transactions b)) = 1
     | _ \<Rightarrow> False)"
proof -
  let ?s = "Blockchain_new zeroDigest noJson 0"
  have r: "reachable zeroDigest noJson ?s" by (rule reachable.fresh)
  have p: "pool ?s = []" by (simp add: pool_def Blockchain_new_def createGenesisBlock_def Let_def)
  have sv: "solvable zeroDigest noJson 4"
    by (simp add: solvable_def zeroDigest_def target_def eval_nat_numeral)
  note t = empty_pool_block_reward[OF r p, of "''u1''" 1 "Addr ''m''" 2]
  from t sv obtain r' s' where
    m: "minePendingTransactions zeroDigest noJson ''u1'' 1 2 (Addr ''m'') ?s = Some (r', s')"
    by (cases "minePendingTransactions zeroDigest noJson ''u1'' 1 2 (Addr ''m'') ?s") auto
  with t obtain b where "r' = Inr b" "reward b = 10001 / 1000"
      "heap s' (transactions b) = [rewardTransaction ''u1'' 1 (Addr ''m'') ?s]"
    by blast
  with m r p sv show ?thesis by simp
qed

subsection \<open>The difficulty recorded in a block\<close>

text \<open>
  Claim C8 says that a committed block's stored difficulty is the difficulty its hash
  satisfies, the chain difficulty in force when it was mined. The code stores the
  constant 4 that the Block constructor assigns; mineBlock never writes the field. Every
  block returned by minePendingTransactions has \<open>difficulty = 4\<close>, whatever the chain's
  difficulty was, while its hash has as many leading zeros as the chain's difficulty asks.
\<close>

theorem mined_block_difficulty_field:
  assumes "minePendingTransactions H J uuid now_tx now_blk a s = Some (Inr b, s')"
  shows "block_difficulty b = 4 \<and> take (difficulty s) (hash b) = target (difficulty s)
       \<and> last (chain_of s') = b"
proof -
  let ?hp1 = "(heap s)(pendingTransactions s :=
                pool s @ [Transaction_new uuid now_tx Null a (miningReward s) MiningReward None None])"
  from minePendingTransactions_Inr[OF assms] obtain s3 where
        mb: "mineBlock H J ?hp1 (difficulty s) a
               (Block_new H J ?hp1 now_blk (pendingTransactions s) (hash (last (chain_of s)))) = Some b"
    and fe: "forEach (?hp1 (pendingTransactions s)) (s\<lparr>heap := ?hp1, chain_of := chain_of s @ [b]\<rparr>) = (Inr (), s3)"
    and s': "s' = s3\<lparr> pendingTransactions := nextRef s3, heap := (heap s3)(nextRef s3 := []),
                      nextRef := nextRef s3 + 1, events := events s3 @ [BlockMined b] \<rparr>"
    by blast
  have "block_difficulty b = 4" using mineBlock_sound(8)[OF mb] by (simp add: Block_new_def Let_def)
  moreover have "take (difficulty s) (hash b) = target (difficulty s)" using mineBlock_sound(1)[OF mb] .
  moreover have "last (chain_of s') = b" using forEach_frame[OF fe] s' by simp
  ultimately show ?thesis by simp
qed

text \<open>With the chain's difficulty set to 2 the mined block's hash has two leading zeros,
  not four, and the block still records 4.\<close>

theorem mined_block_difficulty_field_witness:
  "difficulty (setDifficulty 2 (Blockchain_new twoZeroDigest noJson 0)) = 2
 \<and> (case minePendingTransactions twoZeroDigest noJson ''u1'' 1 2 (Addr ''m'')
           (setDifficulty 2 (Blockchain_new twoZeroDigest noJson 0)) of
       Some (Inr b, s') \<Rightarrow>
         block_difficulty b = 4 \<and> hash b = ''00ab'' \<and> take 4 (hash b) \<noteq> target 4
         \<and> take 2 (hash b) = target 2 \<and> last (chain_of s') = b
     | _ \<Rightarrow> False)"
proof -
  let ?s = "setDifficulty 2 (Blockchain_new twoZeroDigest noJson 0)"
  have "\<exists>b s'. minePendingTransactions twoZeroDigest noJson ''u1'' 1 2 (Addr ''m'') ?s = Some (Inr b, s')
           \<and> hash b = ''00ab''"
    by (simp add: minePendingTransactions_def Blockchain_new_def createGenesisBlock_def Block_new_def
        Let_def calculateHash_def pool_def mineBlock_def mineLoop.simps target_def eval_nat_numeral
        updateBalances_def applyTransaction_def Transaction_new_def calculateReward_def get0_def
        setDifficulty_def twoZeroDigest_def)
  then obtain b s' where
    m: "minePendingTransactions twoZeroDigest noJson ''u1'' 1 2 (Addr ''m'') ?s = Some (Inr b, s')"
    and h: "hash b = ''00ab''" by blast
  have d: "difficulty ?s = 2"
    by (simp add: setDifficulty_def Blockchain_new_def createGenesisBlock_def Let_def)
  from mined_block_difficulty_field[OF m] d
  have "block_difficulty b = 4" "take 2 (hash b) = target 2" "last (chain_of s') = b" by simp_all
  moreover have "take 4 (hash b) \<noteq> target 4" by (simp add: h target_def eval_nat_numeral)
  ultimately show ?thesis using m h d by simp
qed

subsection \<open>A commit that fails\<close>

lemma forEach_append:
  "forEach (xs @ ys) s = (case forEach xs s of (Inl e, s1) \<Rightarrow> (Inl e, s1) | (Inr u, s1) \<Rightarrow> forEach ys s1)"
proof (induction xs arbitrary: s)
  case Nil
  show ?case by simp
next
  case (Cons x xs)
  obtain r1 s1 where a: "applyTransaction x s = (r1, s1)" by (cases "applyTransaction x s")
  show ?case using a Cons.IH[of s1] by (cases r1) simp_all
qed

lemma applyTransaction_low_token_balance:
  assumes "tx_type tx = TransferToken" and "getTokenBalance s (tx_from tx) (data tx) < amount tx"
  shows "applyTransaction tx s = (Inl InsufficientTokenBalance, s)"
  using assms by (simp add: applyTransaction_def transferToken_def getTokenBalance_def Let_def)

text \<open>
  Claim C5 says that when a commit meets a transfer_token whose sender's token balance
  is below the amount, InsufficientTokenBalance is raised and the pending pool and all
  ledger state are left unchanged. The error is raised, but the state is not left
  unchanged: the mined block is already appended to the chain, the reward transaction
  has been pushed to the pool, which is not cleared and is the very array the appended
  block holds, and the effects of the transactions before the failing one stay applied
  (\<open>s1\<close> is the ledger after them).
\<close>

theorem failed_commit_state:
  assumes "chain_of s \<noteq> []"
    and "pool s = pre @ tx # post"
    and "tx_type tx = TransferToken"
    and "forEach pre s = (Inr (), s1)"
    and "getTokenBalance s1 (tx_from tx) (data tx) < amount tx"
    and "minePendingTransactions H J uuid now_tx now_blk a s = Some (r, s')"
  shows "r = Inl InsufficientTokenBalance
       \<and> length (chain_of s') = length (chain_of s) + 1
       \<and> pool s' = pool s @ [rewardTransaction uuid now_tx a s]
       \<and> transactions (last (chain_of s')) = pendingTransactions s'
       \<and> balances s' = balances s1 \<and> tokens s' = tokens s1"
proof -
  let ?r = "rewardTransaction uuid now_tx a s"
  let ?p = "pendingTransactions s"
  let ?hp1 = "(heap s)(?p := pool s @ [?r])"
  let ?b0 = "Block_new H J ?hp1 now_blk ?p (hash (last (chain_of s)))"
  have "forEach (pool s @ [?r]) s = forEach (pre @ (tx # post @ [?r])) s" using assms(2) by simp
  also have "\<dots> = (Inl InsufficientTokenBalance, s1)"
    using assms(4) applyTransaction_low_token_balance[OF assms(3) assms(5)]
    by (simp add: forEach_append)
  finally have fe: "forEach (pool s @ [?r]) s = (Inl InsufficientTokenBalance, s1)" .
  note fr = forEach_frame[OF fe]
  from assms(6) obtain b where mb: "mineBlock H J ?hp1 (difficulty s) a ?b0 = Some b"
    by (auto simp: minePendingTransactions_eq[OF assms(1)] split: option.splits)
  from assms(6) mb fe have r: "r = Inl InsufficientTokenBalance"
    and s': "s' = s1\<lparr>heap := ?hp1, chain_of := chain_of s @ [b]\<rparr>"
    by (auto simp: minePendingTransactions_eq[OF assms(1)])
  have tb: "transactions b = ?p" using mineBlock_sound(4)[OF mb] by (simp add: Block_new_def Let_def)
  show ?thesis using r fr tb by (simp add: s' pool_def)
qed

lemma solvable_prefixDigest: "solvable prefixDigest J 4"
  by (simp add: solvable_def prefixDigest_def target_def eval_nat_numeral)

lemma overdrawnTokenState_fields:
  "chain_of overdrawnTokenState \<noteq> []"
  "pool overdrawnTokenState = [tokenTransfer500]"
  "tokens overdrawnTokenState = [(Addr ''alice'', [(Some ''Gold'', 200)])]"
  "balances overdrawnTokenState = []"
  "difficulty overdrawnTokenState = 4"
  by (simp_all add: overdrawnTokenState_def tokenTransfer500_def addTransaction_def createToken_def
      Blockchain_new_def createGenesisBlock_def Let_def sign_def Transaction_new_def isValid_def pool_def)

text \<open>The spec's scenario: balance 200, transfer of 500, at the head of the pool.\<close>

theorem failed_commit_state_witness:
  "chain_of overdrawnTokenState \<noteq> []
 \<and> pool overdrawnTokenState = [] @ tokenTransfer500 # []
 \<and> tx_type tokenTransfer500 = TransferToken
 \<and> forEach [] overdrawnTokenState = (Inr (), overdrawnTokenState)
 \<and> getTokenBalance overdrawnTokenState (tx_from tokenTransfer500) (data tokenTransfer500) = 200
 \<and> amount tokenTransfer500 = 500
 \<and> (case minePendingTransactions prefixDigest countJson ''u1'' 3 4 (Addr ''miner'') overdrawnTokenState of
       Some (r, s') \<Rightarrow>
         r = Inl InsufficientTokenBalance
         \<and> length (chain_of overdrawnTokenState) = 1 \<and> length (chain_of s') = 2
         \<and> pool s' = [tokenTransfer500, rewardTransaction ''u1'' 3 (Addr ''miner'') overdrawnTokenState]
         \<and> transactions (last (chain_of s')) = pendingTransactions s'
     | None \<Rightarrow> False)"
proof -
  let ?s = "overdrawnTokenState"
  note f = overdrawnTokenState_fields
  have h2: "pool ?s = [] @ tokenTransfer500 # []" using f(2) by simp
  have h3: "tx_type tokenTransfer500 = TransferToken"
    by (simp add: tokenTransfer500_def sign_def Transaction_new_def)
  have h4: "forEach [] ?s = (Inr (), ?s)" by simp
  have g: "getTokenBalance ?s (tx_from tokenTransfer500) (data tokenTransfer500) = 200"
    by (simp add: getTokenBalance_def f(3) get0_def tokenTransfer500_def sign_def Transaction_new_def)
  have am: "amount tokenTransfer500 = 500" by (simp add: tokenTransfer500_def sign_def Transaction_new_def)
  have h5: "getTokenBalance ?s (tx_from tokenTransfer500) (data tokenTransfer500) < amount tokenTransfer500"
    by (simp add: g am)
  have "minePendingTransactions prefixDigest countJson ''u1'' 3 4 (Addr ''miner'') ?s \<noteq> None"
    using minePendingTransactions_terminates[of prefixDigest countJson ?s] solvable_prefixDigest f(5)
    by simp
  then obtain r s' where
    m: "minePendingTransactions prefixDigest countJson ''u1'' 3 4 (Addr ''miner'') ?s = Some (r, s')" by auto
  have l1: "length (chain_of ?s) = 1"
    by (simp add: overdrawnTokenState_def tokenTransfer500_def addTransaction_def createToken_def
      Blockchain_new_def createGenesisBlock_def Let_def sign_def Transaction_new_def isValid_def)
  from failed_commit_state[OF f(1) h2 h3 h4 h5 m] f(1) h2 h3 g am m l1 show ?thesis by simp
qed

text \<open>After the failed commit the appended block and the pool share one array: the next
  accepted transaction changes the block's content, and the chain no longer validates.\<close>

lemma failed_commit_then_submit_invalidates_chain:
  "case minePendingTransactions prefixDigest countJson ''u1'' 3 4 (Addr ''miner'') overdrawnTokenState of
     Some (r, s') \<Rightarrow>
       r = Inl InsufficientTokenBalance
       \<and> isChainValid prefixDigest countJson s'
       \<and> fst (addTransaction tokenTransfer500 s') = Inr ()
       \<and> \<not> isChainValid prefixDigest countJson (snd (addTransaction tokenTransfer500 s'))
   | None \<Rightarrow> False"
  by (simp add: minePendingTransactions_def overdrawnTokenState_def tokenTransfer500_def addTransaction_def
      createToken_def Blockchain_new_def createGenesisBlock_def Block_new_def Let_def sign_def
      Transaction_new_def isValid_def pool_def calculateHash_def mineBlock_def mineLoop.simps target_def
      eval_nat_numeral updateBalances_def applyTransaction_def transferToken_def calculateReward_def
      get0_def prefixDigest_def countJson_def dec.simps isChainValid_def isChainValid_from.simps
      hasValidTransactions_def calculateFee_def)

subsection \<open>Balance totals\<close>

lemma get0_update: "get0 (AList.update k v al) k' = (if k' = k then v else get0 al k')"
  by (simp add: get0_def update_conv')

lemma sum_update:
  "distinct (map fst al) \<Longrightarrow>
     sum_list (map snd (AList.update k v al)) = sum_list (map snd al) - get0 al k + v"
proof (induction al)
  case Nil
  show ?case by (simp add: get0_def)
next
  case (Cons p al)
  obtain k' v' where p: "p = (k', v')" by (cases p)
  show ?case
  proof (cases "k' = k")
    case True
    then show ?thesis using p by (simp add: get0_def)
  next
    case False
    have "get0 (p # al) k = get0 al k" using False p by (simp add: get0_def)
    then show ?thesis using Cons False p by simp
  qed
qed

lemma applyTransaction_transfer_total:
  assumes "distinct (map fst (balances s))" and "tx_type tx = Transfer"
  shows "fst (applyTransaction tx s) = Inr ()
       \<and> distinct (map fst (balances (snd (applyTransaction tx s))))
       \<and> totalBalance (snd (applyTransaction tx s))
           = (if tx_from tx = tx_to tx then totalBalance s + amount tx else totalBalance s - fee tx)"
  using assms
  by (simp add: applyTransaction_def Let_def totalBalance_def sum_update distinct_update get0_update)

lemma applyTransaction_reward_total:
  assumes "distinct (map fst (balances s))" and "tx_type tx = MiningReward"
  shows "fst (applyTransaction tx s) = Inr ()
       \<and> distinct (map fst (balances (snd (applyTransaction tx s))))
       \<and> totalBalance (snd (applyTransaction tx s)) = totalBalance s + amount tx"
  using assms
  by (simp add: applyTransaction_def Let_def totalBalance_def sum_update distinct_update)

text \<open>A block of one transfer and the reward transaction, applied to the balances.\<close>

lemma forEach_transfer_reward_total:
  assumes "distinct (map fst (balances s))" and "tx_type tx = Transfer" and "tx_type r = MiningReward"
  shows "fst (forEach [tx, r] s) = Inr ()
       \<and> totalBalance (snd (forEach [tx, r] s))
           = (if tx_from tx = tx_to tx then totalBalance s + amount tx + amount r
              else totalBalance s - fee tx + amount r)"
proof -
  obtain r1 s1 where a1: "applyTransaction tx s = (r1, s1)" by (cases "applyTransaction tx s")
  from applyTransaction_transfer_total[OF assms(1,2)] a1
  have r1: "r1 = Inr ()" and d1: "distinct (map fst (balances s1))"
    and t1: "totalBalance s1 = (if tx_from tx = tx_to tx then totalBalance s + amount tx else totalBalance s - fee tx)"
    by simp_all
  obtain r2 s2 where a2: "applyTransaction r s1 = (r2, s2)" by (cases "applyTransaction r s1")
  from applyTransaction_reward_total[OF d1 assms(3)] a2
  have r2: "r2 = Inr ()" and t2: "totalBalance s2 = totalBalance s1 + amount r" by simp_all
  show ?thesis using a1 a2 r1 r2 t1 t2 by simp
qed

lemma minePendingTransactions_transfer_total:
  assumes ne: "chain_of s \<noteq> []"
    and d: "distinct (map fst (balances s))"
    and p: "pool s = [tx]"
    and ty: "tx_type tx = Transfer"
    and m: "minePendingTransactions H J uuid now_tx now_blk a s = Some (r, s')"
  shows "(\<exists>b. r = Inr b)
       \<and> totalBalance s'
           = (if tx_from tx = tx_to tx then totalBalance s + amount tx + miningReward s
              else totalBalance s - fee tx + miningReward s)"
proof -
  let ?r = "rewardTransaction uuid now_tx a s"
  have tr: "tx_type ?r = MiningReward" and ar: "amount ?r = miningReward s"
    by (simp_all add: rewardTransaction_def Transaction_new_def)
  obtain rf sf where fe: "forEach (pool s @ [?r]) s = (rf, sf)" by (cases "forEach (pool s @ [?r]) s")
  from forEach_transfer_reward_total[OF d ty tr] fe p ar
  have rf: "rf = Inr ()"
    and t: "totalBalance sf = (if tx_from tx = tx_to tx then totalBalance s + amount tx + miningReward s
              else totalBalance s - fee tx + miningReward s)"
    by simp_all
  from m fe rf have "(\<exists>b. r = Inr b) \<and> balances s' = balances sf"
    by (auto simp: minePendingTransactions_eq[OF ne] split: option.splits)
  then show ?thesis using t by (simp add: totalBalance_def)
qed

subsection \<open>Reachable scenarios\<close>

lemma solvable_zeroDigest: "solvable zeroDigest J 4"
  by (simp add: solvable_def zeroDigest_def target_def eval_nat_numeral)

lemma Blockchain_new_fields:
  "balances (Blockchain_new H J now) = []" "tokens (Blockchain_new H J now) = []"
  "tokenInfo (Blockchain_new H J now) = []" "pool (Blockchain_new H J now) = []"
  by (simp_all add: Blockchain_new_def createGenesisBlock_def Let_def pool_def)

text \<open>A mining call on a reachable state: what it returns when the state applier accepts
  the block, and that it returns when the puzzle is solvable.\<close>

lemma reachable_mine_returns:
  assumes r: "reachable H J s"
    and m: "minePendingTransactions H J uuid now_tx now_blk a s = Some (r', s')"
    and fe: "forEach (pool s @ [rewardTransaction uuid now_tx a s]) s = (Inr (), sf)"
  shows "(\<exists>b. r' = Inr b) \<and> reachable H J s' \<and> balances s' = balances sf \<and> tokens s' = tokens sf
       \<and> tokenInfo s' = tokenInfo s \<and> pool s' = []"
proof -
  from reachable_ledger_inv[OF r] have ne: "chain_of s \<noteq> []" by (simp add: ledger_inv_def)
  from m fe obtain b where b: "r' = Inr b"
    and bal: "balances s' = balances sf" and tok: "tokens s' = tokens sf"
    and pl: "pool s' = []"
    by (auto simp: minePendingTransactions_eq[OF ne] pool_def split: option.splits)
  have m': "minePendingTransactions H J uuid now_tx now_blk a s = Some (Inr b, s')"
    using m b by simp
  have ti: "tokenInfo s' = tokenInfo s" using minePendingTransactions_frame[OF m'] by simp
  show ?thesis using b reachable.mine[OF r m'] bal tok ti pl by simp
qed

lemma reachable_mine_terminates:
  assumes "reachable H J s" and "solvable H J 4"
  shows "\<exists>r' s'. minePendingTransactions H J uuid now_tx now_blk a s = Some (r', s')"
proof -
  from reachable_constants[OF assms(1)] have "difficulty s = 4" by simp
  with minePendingTransactions_terminates[of H J s uuid now_tx now_blk a] assms(2)
  show ?thesis by auto
qed

lemma reachable_add_step:
  assumes r: "reachable H J s" and a: "addTransaction tx s = (Inr (), s')"
  shows "reachable H J s' \<and> pool s' = pool s @ [tx] \<and> balances s' = balances s
       \<and> tokens s' = tokens s \<and> tokenInfo s' = tokenInfo s"
proof -
  have "pool s' = pool s @ [tx]" using a by (auto simp: addTransaction_def pool_def split: if_splits)
  then show ?thesis using reachable.add[OF r a] addTransaction_frame[OF a] by simp
qed

lemma applyTransaction_mint:
  assumes "tx_type tx = MintToken"
  shows "fst (applyTransaction tx s) = Inr ()
       \<and> getTokenBalance (snd (applyTransaction tx s)) (tx_to tx) (data tx)
           = getTokenBalance s (tx_to tx) (data tx) + amount tx"
  using assms
  by (simp add: applyTransaction_def mintToken_def getTokenBalance_def Let_def get0_update update_conv')

text \<open>
  Claim C7. Minting is not capped by the registered total supply: the state applier
  accepts every mint_token transaction and credits its amount. In the sequence
  createToken(Gold, total supply 1000), addTransaction(mint_token of 500),
  minePendingTransactions, whenever the mining call returns, all three calls have
  returned normally and the Gold balances of all addresses sum to 1500, more than the
  declared 1000; and the mining call does return when the puzzle at difficulty 4 is
  solvable, so that such a state is reachable.
\<close>

theorem mint_exceeds_totalSupply:
  "(tx_type tx = MintToken \<longrightarrow>
      fst (applyTransaction tx s) = Inr ()
      \<and> getTokenBalance (snd (applyTransaction tx s)) (tx_to tx) (data tx)
          = getTokenBalance s (tx_to tx) (data tx) + amount tx)
 \<and> (\<forall>r1 s1 r2 s2 r3 s3.
        createToken 1 ''Gold'' ''GLD'' 1000 (Addr ''alice'') (Blockchain_new H J 0) = (r1, s1)
      \<and> addTransaction
           (Transaction_new ''t1'' 2 (Addr ''alice'') (Addr ''bob'') 500 MintToken (Some ''Gold'') None) s1
          = (r2, s2)
      \<and> minePendingTransactions H J ''u1'' 3 4 (Addr ''miner'') s2 = Some (r3, s3)
      \<longrightarrow> r1 = Inr () \<and> r2 = Inr () \<and> (\<exists>b. r3 = Inr b)
          \<and> reachable H J s3
          \<and> (\<exists>info. map_of (tokenInfo s3) ''Gold'' = Some info \<and> totalSupply info = 1000)
          \<and> tokenTotal s3 (Some ''Gold'') = 1500)
 \<and> (solvable H J 4 \<longrightarrow>
      (\<exists>r1 s1 r2 s2 r3 s3 info.
          createToken 1 ''Gold'' ''GLD'' 1000 (Addr ''alice'') (Blockchain_new H J 0) = (r1, s1)
        \<and> addTransaction
             (Transaction_new ''t1'' 2 (Addr ''alice'') (Addr ''bob'') 500 MintToken (Some ''Gold'') None) s1
            = (r2, s2)
        \<and> minePendingTransactions H J ''u1'' 3 4 (Addr ''miner'') s2 = Some (r3, s3)
        \<and> reachable H J s3
        \<and> map_of (tokenInfo s3) ''Gold'' = Some info
        \<and> totalSupply info < tokenTotal s3 (Some ''Gold'')))"
proof -
  let ?s0 = "Blockchain_new H J 0"
  let ?info = "\<lparr> name = ''Gold'', symbol = ''GLD'', totalSupply = 1000, creator = Addr ''alice'', createdAt = 1 \<rparr>"
  let ?tx = "Transaction_new ''t1'' 2 (Addr ''alice'') (Addr ''bob'') 500 MintToken (Some ''Gold'') None"
  note f0 = Blockchain_new_fields[of H J 0]
  have r0: "reachable H J ?s0" by (rule reachable.fresh)
  \<comment> \<open>token creation and submission of the mint\<close>
  have step1: "r1 = Inr () \<and> r2 = Inr () \<and> reachable H J s2 \<and> pool s2 = [?tx]
                \<and> tokens s2 = [(Addr ''alice'', [(Some ''Gold'', 1000)])]
                \<and> tokenInfo s2 = [(''Gold'', ?info)]"
    if c: "createToken 1 ''Gold'' ''GLD'' 1000 (Addr ''alice'') ?s0 = (r1, s1)"
      and a: "addTransaction ?tx s1 = (r2, s2)" for r1 s1 r2 s2
  proof -
    from c have r1: "r1 = Inr ()"
      and f1: "tokenInfo s1 = [(''Gold'', ?info)]" "tokens s1 = [(Addr ''alice'', [(Some ''Gold'', 1000)])]"
      by (auto simp: createToken_def Let_def f0)
    have rs1: "reachable H J s1" by (rule reachable.token[OF r0 c[unfolded r1]])
    have p1: "pool s1 = []" using createToken_frame[OF c] f0 by (simp add: pool_def)
    from a have r2: "r2 = Inr ()" by (simp add: addTransaction_def Transaction_new_def isValid_def)
    note st2 = reachable_add_step[OF rs1 a[unfolded r2]]
    show ?thesis using r1 r2 st2 f1 p1 by simp
  qed
  \<comment> \<open>the commit credits the minted amount\<close>
  have step2: "(\<exists>b. r3 = Inr b) \<and> reachable H J s3 \<and> map_of (tokenInfo s3) ''Gold'' = Some ?info
                \<and> tokenTotal s3 (Some ''Gold'') = 1500"
    if r2: "reachable H J s2" and p2: "pool s2 = [?tx]"
      and t2: "tokens s2 = [(Addr ''alice'', [(Some ''Gold'', 1000)])]"
      and i2: "tokenInfo s2 = [(''Gold'', ?info)]"
      and m: "minePendingTransactions H J ''u1'' 3 4 (Addr ''miner'') s2 = Some (r3, s3)" for s2 r3 s3
  proof -
    obtain sf where fe: "forEach (pool s2 @ [rewardTransaction ''u1'' 3 (Addr ''miner'') s2]) s2 = (Inr (), sf)"
      and tf: "tokens sf = [(Addr ''alice'', [(Some ''Gold'', 1000)]), (Addr ''bob'', [(Some ''Gold'', 500)])]"
      by (simp add: p2 t2 applyTransaction_def mintToken_def rewardTransaction_def Transaction_new_def Let_def get0_def)
    from reachable_mine_returns[OF r2 m fe] tf i2 show ?thesis
      by (simp add: tokenTotal_def get0_def)
  qed
  have partial: "r1 = Inr () \<and> r2 = Inr () \<and> (\<exists>b. r3 = Inr b)
          \<and> reachable H J s3
          \<and> (\<exists>info. map_of (tokenInfo s3) ''Gold'' = Some info \<and> totalSupply info = 1000)
          \<and> tokenTotal s3 (Some ''Gold'') = 1500"
    if c: "createToken 1 ''Gold'' ''GLD'' 1000 (Addr ''alice'') ?s0 = (r1, s1)"
      and a: "addTransaction ?tx s1 = (r2, s2)"
      and m: "minePendingTransactions H J ''u1'' 3 4 (Addr ''miner'') s2 = Some (r3, s3)"
    for r1 s1 r2 s2 r3 s3
  proof -
    note s1 = step1[OF c a]
    from s1 have "reachable H J s2" "pool s2 = [?tx]" "tokens s2 = [(Addr ''alice'', [(Some ''Gold'', 1000)])]"
      "tokenInfo s2 = [(''Gold'', ?info)]" by simp_all
    note s2 = step2[OF this m]
    have "totalSupply ?info = 1000" by simp
    with s2 have "\<exists>info. map_of (tokenInfo s3) ''Gold'' = Some info \<and> totalSupply info = 1000" by blast
    with s1 s2 show ?thesis by simp
  qed
  have total: "\<exists>r1 s1 r2 s2 r3 s3 info.
          createToken 1 ''Gold'' ''GLD'' 1000 (Addr ''alice'') ?s0 = (r1, s1)
        \<and> addTransaction ?tx s1 = (r2, s2)
        \<and> minePendingTransactions H J ''u1'' 3 4 (Addr ''miner'') s2 = Some (r3, s3)
        \<and> reachable H J s3
        \<and> map_of (tokenInfo s3) ''Gold'' = Some info
        \<and> totalSupply info < tokenTotal s3 (Some ''Gold'')" if sv: "solvable H J 4"
  proof -
    obtain r1 s1 where c: "createToken 1 ''Gold'' ''GLD'' 1000 (Addr ''alice'') ?s0 = (r1, s1)"
      by (cases "createToken 1 ''Gold'' ''GLD'' 1000 (Addr ''alice'') ?s0")
    obtain r2 s2 where a: "addTransaction ?tx s1 = (r2, s2)" by (cases "addTransaction ?tx s1")
    note s1 = step1[OF c a]
    then have r2: "reachable H J s2" by simp
    from reachable_mine_terminates[OF r2 sv] obtain r3 s3 where
      m: "minePendingTransactions H J ''u1'' 3 4 (Addr ''miner'') s2 = Some (r3, s3)" by blast
    from partial[OF c a m] obtain info where
      "reachable H J s3" "map_of (tokenInfo s3) ''Gold'' = Some info" "totalSupply info = 1000"
      "tokenTotal s3 (Some ''Gold'') = 1500" by blast
    then have "reachable H J s3 \<and> map_of (tokenInfo s3) ''Gold'' = Some info
        \<and> totalSupply info < tokenTotal s3 (Some ''Gold'')" by simp
    with c a m show ?thesis by blast
  qed
  show ?thesis using applyTransaction_mint partial total by blast
qed

text \<open>The scenario with the stand-in digest.\<close>

theorem mint_exceeds_totalSupply_witness:
  "solvable zeroDigest noJson 4
 \<and> tx_type (Transaction_new ''t1'' 2 (Addr ''alice'') (Addr ''bob'') 500 MintToken (Some ''Gold'') None) = MintToken
 \<and> (\<exists>s1 s2 r3 s3 info.
        createToken 1 ''Gold'' ''GLD'' 1000 (Addr ''alice'') (Blockchain_new zeroDigest noJson 0) = (Inr (), s1)
      \<and> addTransaction
           (Transaction_new ''t1'' 2 (Addr ''alice'') (Addr ''bob'') 500 MintToken (Some ''Gold'') None) s1
          = (Inr (), s2)
      \<and> minePendingTransactions zeroDigest noJson ''u1'' 3 4 (Addr ''miner'') s2 = Some (r3, s3)
      \<and> reachable zeroDigest noJson s3
      \<and> map_of (tokenInfo s3) ''Gold'' = Some info
      \<and> totalSupply info = 1000
      \<and> tokenTotal s3 (Some ''Gold'') = 1500)"
proof -
  let ?tx = "Transaction_new ''t1'' 2 (Addr ''alice'') (Addr ''bob'') 500 MintToken (Some ''Gold'') None"
  let ?s0 = "Blockchain_new zeroDigest noJson 0"
  have sv: "solvable zeroDigest noJson 4" by (rule solvable_zeroDigest)
  have ty: "tx_type ?tx = MintToken" by (simp add: Transaction_new_def)
  note t = mint_exceeds_totalSupply[of ?tx ?s0 zeroDigest noJson]
  from t sv obtain r1 s1 r2 s2 r3 s3 where
    e: "createToken 1 ''Gold'' ''GLD'' 1000 (Addr ''alice'') ?s0 = (r1, s1)"
       "addTransaction ?tx s1 = (r2, s2)"
       "minePendingTransactions zeroDigest noJson ''u1'' 3 4 (Addr ''miner'') s2 = Some (r3, s3)"
    by blast
  from t e have p: "r1 = Inr ()" "r2 = Inr ()" "reachable zeroDigest noJson s3"
    "\<exists>info. map_of (tokenInfo s3) ''Gold'' = Some info \<and> totalSupply info = 1000"
    "tokenTotal s3 (Some ''Gold'') = 1500"
    by blast+
  from e p have "\<exists>s1 s2 r3 s3 info.
        createToken 1 ''Gold'' ''GLD'' 1000 (Addr ''alice'') ?s0 = (Inr (), s1)
      \<and> addTransaction ?tx s1 = (Inr (), s2)
      \<and> minePendingTransactions zeroDigest noJson ''u1'' 3 4 (Addr ''miner'') s2 = Some (r3, s3)
      \<and> reachable zeroDigest noJson s3
      \<and> map_of (tokenInfo s3) ''Gold'' = Some info
      \<and> totalSupply info = 1000
      \<and> tokenTotal s3 (Some ''Gold'') = 1500"
    by blast
  with sv ty show ?thesis by blast
qed

lemma applyTransaction_transfer_unconditional:
  assumes "tx_type tx = Transfer"
  shows "fst (applyTransaction tx s) = Inr ()
       \<and> getBalance (snd (applyTransaction tx s)) (tx_from tx)
           = (if tx_from tx = tx_to tx then getBalance s (tx_from tx) + amount tx
              else getBalance s (tx_from tx) - amount tx - fee tx)"
  using assms by (simp add: applyTransaction_def getBalance_def Let_def get0_update)

text \<open>
  Claim C9. The state applier performs the transfer case unconditionally: it returns
  normally for every transfer and debits amount + fee from the sender without comparing
  it with the balance. In the sequence: A mines a block (balance 10), two transfers of 6
  from A are submitted, M mines a block; whenever the two mining calls return, both
  transfers have been accepted against the committed balance 10 and A's balance ends
  at -2.002; and the mining calls do return when the puzzle at difficulty 4 is solvable,
  so that a state with a negative balance is reachable.
\<close>

theorem pending_overspend_negative_balance:
  "(tx_type tx = Transfer \<longrightarrow>
      fst (applyTransaction tx s) = Inr ()
      \<and> getBalance (snd (applyTransaction tx s)) (tx_from tx)
          = (if tx_from tx = tx_to tx then getBalance s (tx_from tx) + amount tx
             else getBalance s (tx_from tx) - amount tx - fee tx))
 \<and> (\<forall>r1 s1 r2 s2 r3 s3 r4 s4.
        minePendingTransactions H J ''u1'' 1 2 (Addr ''A'') (Blockchain_new H J 0) = Some (r1, s1)
      \<and> addTransaction
           (sign ''5a'' (Transaction_new ''t1'' 3 (Addr ''A'') (Addr ''B'') 6 Transfer None None)) s1
          = (r2, s2)
      \<and> addTransaction
           (sign ''5b'' (Transaction_new ''t2'' 4 (Addr ''A'') (Addr ''B'') 6 Transfer None None)) s2
          = (r3, s3)
      \<and> minePendingTransactions H J ''u2'' 5 6 (Addr ''M'') s3 = Some (r4, s4)
      \<longrightarrow> (\<exists>b1. r1 = Inr b1) \<and> getBalance s1 (Addr ''A'') = 10
          \<and> r2 = Inr () \<and> r3 = Inr () \<and> (\<exists>b4. r4 = Inr b4)
          \<and> reachable H J s4
          \<and> getBalance s4 (Addr ''A'') = - (2002 / 1000)
          \<and> getBalance s4 (Addr ''A'') < 0)
 \<and> (solvable H J 4 \<longrightarrow>
      (\<exists>r1 s1 r2 s2 r3 s3 r4 s4.
          minePendingTransactions H J ''u1'' 1 2 (Addr ''A'') (Blockchain_new H J 0) = Some (r1, s1)
        \<and> addTransaction
             (sign ''5a'' (Transaction_new ''t1'' 3 (Addr ''A'') (Addr ''B'') 6 Transfer None None)) s1
            = (r2, s2)
        \<and> addTransaction
             (sign ''5b'' (Transaction_new ''t2'' 4 (Addr ''A'') (Addr ''B'') 6 Transfer None None)) s2
            = (r3, s3)
        \<and> minePendingTransactions H J ''u2'' 5 6 (Addr ''M'') s3 = Some (r4, s4)
        \<and> reachable H J s4
        \<and> getBalance s4 (Addr ''A'') < 0))"
proof -
  let ?s0 = "Blockchain_new H J 0"
  let ?t1 = "sign ''5a'' (Transaction_new ''t1'' 3 (Addr ''A'') (Addr ''B'') 6 Transfer None None)"
  let ?t2 = "sign ''5b'' (Transaction_new ''t2'' 4 (Addr ''A'') (Addr ''B'') 6 Transfer None None)"
  note f0 = Blockchain_new_fields[of H J 0]
  have r0: "reachable H J ?s0" by (rule reachable.fresh)
  have mr0: "miningReward ?s0 = 10" using reachable_constants[OF r0] by simp
  \<comment> \<open>first block: the reward of 10 goes to A\<close>
  have step1: "(\<exists>b1. r1 = Inr b1) \<and> reachable H J s1 \<and> balances s1 = [(Addr ''A'', 10)] \<and> pool s1 = []"
    if m1: "minePendingTransactions H J ''u1'' 1 2 (Addr ''A'') ?s0 = Some (r1, s1)" for r1 s1
  proof -
    obtain sf0 where fe0: "forEach (pool ?s0 @ [rewardTransaction ''u1'' 1 (Addr ''A'') ?s0]) ?s0 = (Inr (), sf0)"
      and bf0: "balances sf0 = [(Addr ''A'', 10)]"
      by (simp add: f0 mr0 applyTransaction_def rewardTransaction_def Transaction_new_def Let_def get0_def)
    from reachable_mine_returns[OF r0 m1 fe0] bf0 show ?thesis by simp
  qed
  \<comment> \<open>both transfers pass the balance check against the committed balance 10\<close>
  have step2: "r2 = Inr () \<and> r3 = Inr () \<and> reachable H J s3 \<and> pool s3 = [?t1, ?t2]
                \<and> balances s3 = [(Addr ''A'', 10)]"
    if r1: "reachable H J s1" and b1: "balances s1 = [(Addr ''A'', 10)]" and p1: "pool s1 = []"
      and a1: "addTransaction ?t1 s1 = (r2, s2)" and a2: "addTransaction ?t2 s2 = (r3, s3)"
    for s1 r2 s2 r3 s3
  proof -
    have g1: "getBalance s1 (Addr ''A'') = 10" by (simp add: getBalance_def b1 get0_def)
    have r2: "r2 = Inr ()" using a1
      by (simp add: addTransaction_def sign_def Transaction_new_def isValid_def g1 calculateFee_def)
    note st2 = reachable_add_step[OF r1 a1[unfolded r2]]
    have g2: "getBalance s2 (Addr ''A'') = 10" using st2 g1 by (simp add: getBalance_def)
    have r3: "r3 = Inr ()" using a2
      by (simp add: addTransaction_def sign_def Transaction_new_def isValid_def g2 calculateFee_def)
    have rs2: "reachable H J s2" using st2 by simp
    note st3 = reachable_add_step[OF rs2 a2[unfolded r3]]
    show ?thesis using r2 r3 st2 st3 p1 b1 by simp
  qed
  \<comment> \<open>second block: both debits are applied\<close>
  have step3: "(\<exists>b4. r4 = Inr b4) \<and> reachable H J s4 \<and> getBalance s4 (Addr ''A'') = - (2002 / 1000)"
    if r3: "reachable H J s3" and p3: "pool s3 = [?t1, ?t2]" and b3: "balances s3 = [(Addr ''A'', 10)]"
      and m4: "minePendingTransactions H J ''u2'' 5 6 (Addr ''M'') s3 = Some (r4, s4)"
    for s3 r4 s4
  proof -
    have mr3: "miningReward s3 = 10" using reachable_constants[OF r3] by simp
    obtain sf3 where fe3: "forEach (pool s3 @ [rewardTransaction ''u2'' 5 (Addr ''M'') s3]) s3 = (Inr (), sf3)"
      and bf3: "balances sf3 = [(Addr ''A'', - (2002 / 1000)), (Addr ''B'', 12), (Addr ''M'', 10)]"
      by (simp add: p3 b3 mr3 applyTransaction_def rewardTransaction_def sign_def Transaction_new_def
          Let_def get0_def calculateFee_def)
    from reachable_mine_returns[OF r3 m4 fe3] bf3 show ?thesis
      by (simp add: getBalance_def get0_def)
  qed
  have partial: "(\<exists>b1. r1 = Inr b1) \<and> getBalance s1 (Addr ''A'') = 10
          \<and> r2 = Inr () \<and> r3 = Inr () \<and> (\<exists>b4. r4 = Inr b4)
          \<and> reachable H J s4
          \<and> getBalance s4 (Addr ''A'') = - (2002 / 1000)
          \<and> getBalance s4 (Addr ''A'') < 0"
    if m1: "minePendingTransactions H J ''u1'' 1 2 (Addr ''A'') ?s0 = Some (r1, s1)"
      and a1: "addTransaction ?t1 s1 = (r2, s2)" and a2: "addTransaction ?t2 s2 = (r3, s3)"
      and m4: "minePendingTransactions H J ''u2'' 5 6 (Addr ''M'') s3 = Some (r4, s4)"
    for r1 s1 r2 s2 r3 s3 r4 s4
  proof -
    note s1 = step1[OF m1]
    from s1 have g1: "getBalance s1 (Addr ''A'') = 10" by (simp add: getBalance_def get0_def)
    from s1 have "reachable H J s1" "balances s1 = [(Addr ''A'', 10)]" "pool s1 = []" by simp_all
    note s2 = step2[OF this a1 a2]
    from s2 have "reachable H J s3" "pool s3 = [?t1, ?t2]" "balances s3 = [(Addr ''A'', 10)]" by simp_all
    note s3 = step3[OF this m4]
    show ?thesis using s1 g1 s2 s3 by simp
  qed
  have total: "\<exists>r1 s1 r2 s2 r3 s3 r4 s4.
          minePendingTransactions H J ''u1'' 1 2 (Addr ''A'') ?s0 = Some (r1, s1)
        \<and> addTransaction ?t1 s1 = (r2, s2)
        \<and> addTransaction ?t2 s2 = (r3, s3)
        \<and> minePendingTransactions H J ''u2'' 5 6 (Addr ''M'') s3 = Some (r4, s4)
        \<and> reachable H J s4
        \<and> getBalance s4 (Addr ''A'') < 0" if sv: "solvable H J 4"
  proof -
    from reachable_mine_terminates[OF r0 sv] obtain r1 s1 where
      m1: "minePendingTransactions H J ''u1'' 1 2 (Addr ''A'') ?s0 = Some (r1, s1)" by blast
    note s1 = step1[OF m1]
    obtain r2 s2 where a1: "addTransaction ?t1 s1 = (r2, s2)" by (cases "addTransaction ?t1 s1")
    obtain r3 s3 where a2: "addTransaction ?t2 s2 = (r3, s3)" by (cases "addTransaction ?t2 s2")
    from s1 have "reachable H J s1" "balances s1 = [(Addr ''A'', 10)]" "pool s1 = []" by simp_all
    note s2 = step2[OF this a1 a2]
    then have r3: "reachable H J s3" by simp
    from reachable_mine_terminates[OF r3 sv] obtain r4 s4 where
      m4: "minePendingTransactions H J ''u2'' 5 6 (Addr ''M'') s3 = Some (r4, s4)" by blast
    from partial[OF m1 a1 a2 m4] m1 a1 a2 m4 show ?thesis by blast
  qed
  show ?thesis using applyTransaction_transfer_unconditional partial total by blast
qed

text \<open>The scenario with the stand-in digest.\<close>

theorem pending_overspend_negative_balance_witness:
  "solvable zeroDigest noJson 4
 \<and> tx_type (sign ''5a'' (Transaction_new ''t1'' 3 (Addr ''A'') (Addr ''B'') 6 Transfer None None)) = Transfer
 \<and> (\<exists>r1 s1 s2 s3 r4 s4.
        minePendingTransactions zeroDigest noJson ''u1'' 1 2 (Addr ''A'') (Blockchain_new zeroDigest noJson 0)
          = Some (r1, s1)
      \<and> addTransaction
           (sign ''5a'' (Transaction_new ''t1'' 3 (Addr ''A'') (Addr ''B'') 6 Transfer None None)) s1
          = (Inr (), s2)
      \<and> addTransaction
           (sign ''5b'' (Transaction_new ''t2'' 4 (Addr ''A'') (Addr ''B'') 6 Transfer None None)) s2
          = (Inr (), s3)
      \<and> minePendingTransactions zeroDigest noJson ''u2'' 5 6 (Addr ''M'') s3 = Some (r4, s4)
      \<and> reachable zeroDigest noJson s4
      \<and> getBalance s4 (Addr ''A'') = - (2002 / 1000))"
proof -
  let ?t1 = "sign ''5a'' (Transaction_new ''t1'' 3 (Addr ''A'') (Addr ''B'') 6 Transfer None None)"
  let ?t2 = "sign ''5b'' (Transaction_new ''t2'' 4 (Addr ''A'') (Addr ''B'') 6 Transfer None None)"
  have sv: "solvable zeroDigest noJson 4" by (rule solvable_zeroDigest)
  have ty: "tx_type ?t1 = Transfer" by (simp add: sign_def Transaction_new_def)
  note t = pending_overspend_negative_balance[of ?t1 "Blockchain_new zeroDigest noJson 0" zeroDigest noJson]
  from t sv obtain r1 s1 r2 s2 r3 s3 r4 s4 where
    e: "minePendingTransactions zeroDigest noJson ''u1'' 1 2 (Addr ''A'') (Blockchain_new zeroDigest noJson 0)
          = Some (r1, s1)"
       "addTransaction ?t1 s1 = (r2, s2)" "addTransaction ?t2 s2 = (r3, s3)"
       "minePendingTransactions zeroDigest noJson ''u2'' 5 6 (Addr ''M'') s3 = Some (r4, s4)"
    by blast
  from t e have p: "r2 = Inr ()" "r3 = Inr ()" "reachable zeroDigest noJson s4"
    "getBalance s4 (Addr ''A'') = - (2002 / 1000)"
    by blast+
  from e p have "\<exists>r1 s1 s2 s3 r4 s4.
        minePendingTransactions zeroDigest noJson ''u1'' 1 2 (Addr ''A'') (Blockchain_new zeroDigest noJson 0)
          = Some (r1, s1)
      \<and> addTransaction ?t1 s1 = (Inr (), s2)
      \<and> addTransaction ?t2 s2 = (Inr (), s3)
      \<and> minePendingTransactions zeroDigest noJson ''u2'' 5 6 (Addr ''M'') s3 = Some (r4, s4)
      \<and> reachable zeroDigest noJson s4
      \<and> getBalance s4 (Addr ''A'') = - (2002 / 1000)"
    by blast
  with sv ty show ?thesis by blast
qed

subsection \<open>Conservation over one block\<close>

lemma applyTransaction_distinct:
  assumes "distinct (map fst (balances s))"
  shows "distinct (map fst (balances (snd (applyTransaction tx s))))"
  using assms
  by (cases "tx_type tx")
     (simp_all add: applyTransaction_def mintToken_def transferToken_def Let_def distinct_update)

lemma forEach_distinct:
  assumes "distinct (map fst (balances s))"
  shows "distinct (map fst (balances (snd (forEach txs s))))"
  using assms
proof (induction txs arbitrary: s)
  case Nil
  then show ?case by simp
next
  case (Cons tx txs)
  obtain r1 s1 where a: "applyTransaction tx s = (r1, s1)" by (cases "applyTransaction tx s")
  from applyTransaction_distinct[OF Cons.prems, of tx] a have d: "distinct (map fst (balances s1))" by simp
  show ?case using a d Cons.IH[OF d] by (cases r1) simp_all
qed

lemma reachable_distinct_balances: "reachable H J s \<Longrightarrow> distinct (map fst (balances s))"
proof (induction rule: reachable.induct)
  case (fresh now)
  show ?case by (simp add: Blockchain_new_fields)
next
  case (add s tx s')
  then show ?case using addTransaction_frame by metis
next
  case (mine s uuid now_tx now_blk a b s')
  from reachable_ledger_inv[OF mine.hyps(1)] have ne: "chain_of s \<noteq> []" by (simp add: ledger_inv_def)
  let ?txs = "pool s @ [rewardTransaction uuid now_tx a s]"
  obtain rf sf where fe: "forEach ?txs s = (rf, sf)" by (cases "forEach ?txs s")
  from mine.hyps(2) fe have "balances s' = balances sf"
    by (auto simp: minePendingTransactions_eq[OF ne] split: option.splits sum.splits)
  moreover have "distinct (map fst (balances sf))"
    using forEach_distinct[OF mine.IH, of ?txs] fe by simp
  ultimately show ?case by simp
next
  case token
  then show ?case using createToken_frame by metis
qed

text \<open>
  Claim C6 says that committing a block of one transfer with fee \<open>f\<close> and the reward
  transaction of amount \<open>r\<close> raises the sum of all balances by exactly \<open>r - f\<close>. That is
  what the code does when sender and receiver differ. When they are the same address
  the code reads both balances before writing either, the credit overwrites the debit,
  and the sum rises by \<open>r + amount\<close>: the amount is created and no fee is paid.
\<close>

theorem transfer_block_total:
  assumes "reachable H J s"
    and "pool s = [tx]"
    and "tx_type tx = Transfer"
    and "minePendingTransactions H J uuid now_tx now_blk a s = Some (r, s')"
  shows "(\<exists>b. r = Inr b)
       \<and> amount (rewardTransaction uuid now_tx a s) = miningReward s
       \<and> totalBalance s'
           = (if tx_from tx = tx_to tx then totalBalance s + miningReward s + amount tx
              else totalBalance s + miningReward s - fee tx)"
proof -
  from reachable_ledger_inv[OF assms(1)] have ne: "chain_of s \<noteq> []" by (simp add: ledger_inv_def)
  have "amount (rewardTransaction uuid now_tx a s) = miningReward s"
    by (simp add: rewardTransaction_def Transaction_new_def)
  then show ?thesis
    using minePendingTransactions_transfer_total[OF ne reachable_distinct_balances[OF assms(1)] assms(2,3,4)]
    by simp
qed

text \<open>The self-transfer of 5 with fee 0.001: the total goes from 10 to 25, not to 19.999.\<close>

theorem transfer_block_total_witness:
  "reachable zeroDigest noJson selfTransferState
 \<and> pool selfTransferState = [selfTransfer5]
 \<and> tx_type selfTransfer5 = Transfer
 \<and> tx_from selfTransfer5 = tx_to selfTransfer5
 \<and> amount selfTransfer5 = 5 \<and> fee selfTransfer5 = 1 / 1000
 \<and> miningReward selfTransferState = 10
 \<and> totalBalance selfTransferState = 10
 \<and> (case minePendingTransactions zeroDigest noJson ''u2'' 4 5 (Addr ''M'') selfTransferState of
       Some (Inr b, s') \<Rightarrow> totalBalance s' = 25
     | _ \<Rightarrow> False)"
proof -
  have m1: "\<exists>b. minePendingTransactions zeroDigest noJson ''u1'' 1 2 (Addr ''A'') (Blockchain_new zeroDigest noJson 0)
               = Some (Inr b, minedOnceState)"
    by (simp add: minedOnceState_def minePendingTransactions_def Blockchain_new_def createGenesisBlock_def
        Block_new_def Let_def calculateHash_def pool_def mineBlock_def mineLoop.simps target_def
        eval_nat_numeral updateBalances_def applyTransaction_def Transaction_new_def calculateReward_def
        get0_def zeroDigest_def)
  then have r1: "reachable zeroDigest noJson minedOnceState"
    using reachable.mine[OF reachable.fresh] by blast
  have b1: "balances minedOnceState = [(Addr ''A'', 10)]" and p1: "pool minedOnceState = []"
    by (simp_all add: minedOnceState_def minePendingTransactions_def Blockchain_new_def createGenesisBlock_def
        Block_new_def Let_def calculateHash_def pool_def mineBlock_def mineLoop.simps target_def
        eval_nat_numeral updateBalances_def applyTransaction_def Transaction_new_def calculateReward_def
        get0_def zeroDigest_def)
  have a: "addTransaction selfTransfer5 minedOnceState = (Inr (), selfTransferState)"
    by (simp add: selfTransferState_def addTransaction_def selfTransfer5_def sign_def Transaction_new_def
        isValid_def getBalance_def b1 get0_def calculateFee_def)
  note st = reachable_add_step[OF r1 a]
  have r: "reachable zeroDigest noJson selfTransferState" using st by simp
  have p: "pool selfTransferState = [selfTransfer5]" using st p1 by simp
  have ty: "tx_type selfTransfer5 = Transfer" "tx_from selfTransfer5 = tx_to selfTransfer5"
    "amount selfTransfer5 = 5" "fee selfTransfer5 = 1 / 1000"
    by (simp_all add: selfTransfer5_def sign_def Transaction_new_def calculateFee_def)
  have mr: "miningReward selfTransferState = 10" using reachable_constants[OF r] by simp
  have tb: "totalBalance selfTransferState = 10" using st b1 by (simp add: totalBalance_def)
  have "minePendingTransactions zeroDigest noJson ''u2'' 4 5 (Addr ''M'') selfTransferState \<noteq> None"
    using minePendingTransactions_terminates[of zeroDigest noJson selfTransferState]
      solvable_zeroDigest reachable_constants[OF r] by simp
  then obtain r' s' where
    m: "minePendingTransactions zeroDigest noJson ''u2'' 4 5 (Addr ''M'') selfTransferState = Some (r', s')"
    by auto
  from transfer_block_total[OF r p ty(1) m] ty mr tb
  obtain b where "r' = Inr b" "totalBalance s' = 25" by auto
  with m r p ty mr tb show ?thesis by simp
qed

end
